theory Spec2Isabelle
  imports Complex_Main "HOL-Library.Product_Lexorder" "HOL-Library.Multiset"
begin

section \<open>Data model\<close>

text \<open>
  The module \<^verbatim>\<open>solrad/climate/pvgis_tmy.py\<close> works on pandas objects. A
  \<^verbatim>\<open>pandas.Timestamp\<close> is a record of its calendar fields; the module only reads
  \<^verbatim>\<open>.month\<close>, \<^verbatim>\<open>.day\<close>, \<^verbatim>\<open>.hour\<close>, \<^verbatim>\<open>.minute\<close> and \<^verbatim>\<open>.second\<close>.
  Floats are idealised as real numbers.
\<close>

record timestamp =
  t_year :: int
  t_month :: nat
  t_day :: nat
  t_hour :: nat
  t_minute :: nat
  t_second :: nat

text \<open>
  A \<^verbatim>\<open>DataFrame\<close> is its list of column labels and its rows in table order, each row
  an index label with the row's values by column label.
\<close>

record 'i dataframe =
  df_columns :: "string list"
  df_rows :: "('i \<times> (string \<Rightarrow> real)) list"

text \<open>The TMY table is indexed by (Month, Day, Hour).\<close>

type_synonym tmy_key = "nat \<times> nat \<times> nat"

text \<open>
  The tables of the result are created with an index and a list of column labels, all
  cells NaN, and are then filled one column at a time: \<open>None\<close> is a column that has
  not been assigned.
\<close>

record day_table =
  dt_index :: "timestamp list"
  dt_columns :: "string list"
  dt_data :: "string \<rightharpoonup> real list"

text \<open>
  \<open>KeyError\<close> carries the key that was not found; \<open>ValueError\<close> is what
  \<^verbatim>\<open>scipy.interpolate.interp1d\<close> raises on nodes it cannot use.
\<close>

datatype error = KeyError "nat list" | ValueError

text \<open>
  A full-key lookup \<^verbatim>\<open>df.loc[(m, d, h), col]\<close> returns a scalar when one row has the
  key, and a \<^verbatim>\<open>Series\<close> of the matching rows when several rows have it.
\<close>

datatype cell = Scalar real | Series "real list"

datatype kind = Linear | Quadratic | Cubic

section \<open>The TMY fetcher\<close>

definition new_cols_dict :: "(string \<times> string) list" where
  "new_cols_dict =
     [(''temp_air'', ''T2m''), (''relative_humidity'', ''RH''), (''ghi'', ''G(h)''),
      (''dni'', ''Gb(n)''), (''dhi'', ''Gd(h)''), (''wind_speed'', ''WS10m''),
      (''wind_direction'', ''WD10m''), (''pressure'', ''SP'')]"

text \<open>\<^verbatim>\<open>rename(columns = new_cols_dict)\<close>: a label missing from the dictionary is kept.\<close>

definition rename_col :: "string \<Rightarrow> string" where
  "rename_col c = (case map_of new_cols_dict c of Some c' \<Rightarrow> c' | None \<Rightarrow> c)"

definition old_col :: "string \<Rightarrow> string" where
  "old_col c' =
     (case map_of (map (\<lambda>(a, b). (b, a)) new_cols_dict) c' of Some c \<Rightarrow> c | None \<Rightarrow> c')"

text \<open>
  \<^verbatim>\<open>get_pvgis_tmy_dataframe\<close>. The request to PVGIS and the conversion of a timestamp
  to the zone \<^verbatim>\<open>tz\<close> are pvlib's and pandas's: the response (a table indexed by UTC
  timestamps) and the conversion \<open>tz_convert\<close> of one index label are parameters. The
  rows are relabelled, the Month, Day and Hour of the new labels are computed, the rows
  are sorted by them and indexed by them, and the columns are renamed.
\<close>

definition get_pvgis_tmy_dataframe ::
  "(timestamp \<Rightarrow> timestamp) \<Rightarrow> timestamp dataframe \<Rightarrow> tmy_key dataframe" where
  "get_pvgis_tmy_dataframe tz_convert response =
     (let reindexed = map (\<lambda>(t, r). (tz_convert t, r)) (df_rows response);
          with_mdh = map (\<lambda>(date, r). ((t_month date, t_day date, t_hour date), r)) reindexed;
          sorted_rows = sort_key fst with_mdh
      in \<lparr>df_columns = map rename_col (df_columns response),
          df_rows = map (\<lambda>(k, r). (k, r \<circ> old_col)) sorted_rows\<rparr>)"

section \<open>The daily interpolator\<close>

subsection \<open>Lookups in the TMY table\<close>

text \<open>
  \<^verbatim>\<open>tmy_data.loc[(month, day), col]\<close>: the values of column \<open>col\<close> in the rows of
  that day, in table order; \<open>KeyError\<close> when there is no such row.
\<close>

definition loc_day :: "tmy_key dataframe \<Rightarrow> nat \<Rightarrow> nat \<Rightarrow> string \<Rightarrow> error + real list" where
  "loc_day tmy_data month day col =
     (let sel = filter (\<lambda>(k, r). fst k = month \<and> fst (snd k) = day) (df_rows tmy_data)
      in if sel = [] then Inl (KeyError [month, day])
         else Inr (map (\<lambda>(k, r). r col) sel))"

text \<open>\<^verbatim>\<open>tmy_data.loc[(month, day, hour), col]\<close>.\<close>

definition loc_hour :: "tmy_key dataframe \<Rightarrow> tmy_key \<Rightarrow> string \<Rightarrow> error + cell" where
  "loc_hour tmy_data key col =
     (let sel = filter (\<lambda>(k, r). k = key) (df_rows tmy_data)
      in case sel of
           [] \<Rightarrow> Inl (KeyError [fst key, fst (snd key), snd (snd key)])
         | [(k, r)] \<Rightarrow> Inr (Scalar (r col))
         | _ \<Rightarrow> Inr (Series (map (\<lambda>(k, r). r col) sel)))"

subsection \<open>The closing node\<close>

text \<open>
  The three nested \<^verbatim>\<open>try\<close> blocks: the first two catch \<^verbatim>\<open>KeyError\<close> only, the
  innermost catches every exception and raises it again.
\<close>

definition closing_node :: "tmy_key dataframe \<Rightarrow> nat \<Rightarrow> nat \<Rightarrow> string \<Rightarrow> error + cell" where
  "closing_node tmy_data month day' col =
     (case loc_hour tmy_data (month, day' + 1, 0) col of
        Inr v \<Rightarrow> Inr v
      | Inl ValueError \<Rightarrow> Inl ValueError
      | Inl (KeyError _) \<Rightarrow>
          (case loc_hour tmy_data (month + 1, 1, 0) col of
             Inr v \<Rightarrow> Inr v
           | Inl ValueError \<Rightarrow> Inl ValueError
           | Inl (KeyError _) \<Rightarrow>
               (case loc_hour tmy_data (1, 1, 0) col of
                  Inr v \<Rightarrow> Inr v
                | Inl m \<Rightarrow> Inl m)))"

text \<open>The list \<^verbatim>\<open>y_interp\<close> of one column: the day's values and the closing node.\<close>

definition y_interp :: "tmy_key dataframe \<Rightarrow> nat \<Rightarrow> nat \<Rightarrow> string \<Rightarrow> error + cell list" where
  "y_interp tmy_data month day' col =
     (case loc_day tmy_data month day' col of
        Inl e \<Rightarrow> Inl e
      | Inr ys \<Rightarrow>
          (case closing_node tmy_data month day' col of
             Inl e \<Rightarrow> Inl e
           | Inr c \<Rightarrow> Inr (map Scalar ys @ [c])))"

subsection \<open>Interpolation\<close>

definition x_interp :: "real list" where
  "x_interp = map real [0..<25]"

text \<open>
  The linear interpolant is \<^verbatim>\<open>numpy.interp\<close>, to which \<^verbatim>\<open>interp1d\<close> hands float
  nodes of kind \<^verbatim>\<open>'linear'\<close>: with \<open>j\<close> the last node not above \<open>x_new\<close>, the
  value is \<open>y[j]\<close> at the last node and at a node itself, and on the chord otherwise.
\<close>

definition call_linear_np :: "real list \<Rightarrow> real list \<Rightarrow> real \<Rightarrow> real" where
  "call_linear_np x y x_new =
     (let j = length (takeWhile (\<lambda>xi. xi \<le> x_new) x) - 1
      in if j = length x - 1 then y ! j
         else if x ! j = x_new then y ! j
         else (y ! (j + 1) - y ! j) / (x ! (j + 1) - x ! j) * (x_new - x ! j) + y ! j)"

fun scalars :: "cell list \<Rightarrow> real list option" where
  "scalars [] = Some []"
| "scalars (Scalar v # cs) = (case scalars cs of None \<Rightarrow> None | Some vs \<Rightarrow> Some (v # vs))"
| "scalars (Series vs # cs) = None"

fun spline_order :: "kind \<Rightarrow> nat" where
  "spline_order Linear = 1"
| "spline_order Quadratic = 2"
| "spline_order Cubic = 3"

text \<open>
  \<^verbatim>\<open>interp1d(x, y, kind)\<close> followed by the call of the interpolant on the array
  \<open>x_new\<close>. The constructor raises \<open>ValueError\<close> when \<open>x\<close> and \<open>y\<close> differ in
  length or \<open>y\<close> is not an array of floats; the call raises it when a point lies
  outside the nodes (\<^verbatim>\<open>bounds_error\<close>). The quadratic and cubic interpolants are
  scipy's \<^verbatim>\<open>make_interp_spline(x, y, k)\<close>, the parameter \<open>spl\<close>: the value it
  returns in double precision is the value of the column, and nothing is assumed of it.
\<close>

definition interp1d ::
  "(nat \<Rightarrow> real list \<Rightarrow> real list \<Rightarrow> real \<Rightarrow> real) \<Rightarrow> real list \<Rightarrow> cell list \<Rightarrow> kind \<Rightarrow>
   real list \<Rightarrow> error + real list" where
  "interp1d spl x y knd x_new =
     (case scalars y of
        None \<Rightarrow> Inl ValueError
      | Some ys \<Rightarrow>
          if length x \<noteq> length ys then Inl ValueError
          else if list_ex (\<lambda>v. v < hd x \<or> last x < v) x_new then Inl ValueError
          else Inr (map (case knd of Linear \<Rightarrow> call_linear_np x ys
                                   | _ \<Rightarrow> spl (spline_order knd) x ys) x_new))"

subsection \<open>One group, all groups\<close>

definition hms_float_of :: "timestamp \<Rightarrow> real" where
  "hms_float_of t = real (t_hour t) + real (t_minute t) / 60 + real (t_second t) / 3600"

definition lookup_day :: "nat \<Rightarrow> nat \<Rightarrow> nat" where
  "lookup_day month day = (if (month, day) = (2, 29) then 28 else day)"

text \<open>The loop over the columns of the TMY table, on the table of the group.\<close>

fun interp_columns ::
  "(nat \<Rightarrow> real list \<Rightarrow> real list \<Rightarrow> real \<Rightarrow> real) \<Rightarrow> tmy_key dataframe \<Rightarrow> kind \<Rightarrow>
   nat \<Rightarrow> nat \<Rightarrow> real list \<Rightarrow> string list \<Rightarrow> day_table \<Rightarrow> error + day_table" where
  "interp_columns spl tmy_data knd month day' hms_float [] tbl = Inr tbl"
| "interp_columns spl tmy_data knd month day' hms_float (col # cols) tbl =
     (case y_interp tmy_data month day' col of
        Inl e \<Rightarrow> Inl e
      | Inr ys \<Rightarrow>
          (case interp1d spl x_interp ys knd hms_float of
             Inl e \<Rightarrow> Inl e
           | Inr vals \<Rightarrow>
               interp_columns spl tmy_data knd month day' hms_float cols
                 (tbl\<lparr>dt_data := (dt_data tbl)(col \<mapsto> vals)\<rparr>)))"

text \<open>The body of the loop over the groups.\<close>

definition day_group ::
  "(nat \<Rightarrow> real list \<Rightarrow> real list \<Rightarrow> real \<Rightarrow> real) \<Rightarrow> tmy_key dataframe \<Rightarrow> kind \<Rightarrow>
   nat \<Rightarrow> nat \<Rightarrow> timestamp list \<Rightarrow> error + day_table" where
  "day_group spl tmy_data knd month day DatetimeIndex_obj =
     (let hms_float = map hms_float_of DatetimeIndex_obj;
          tbl = \<lparr>dt_index = DatetimeIndex_obj,
                 dt_columns = ''hms_float'' # df_columns tmy_data,
                 dt_data = Map.empty\<rparr>;
          tbl = tbl\<lparr>dt_data := (dt_data tbl)(''hms_float'' \<mapsto> hms_float)\<rparr>;
          day' = lookup_day month day
      in interp_columns spl tmy_data knd month day' hms_float (df_columns tmy_data) tbl)"

type_synonym date_key = "int \<times> nat \<times> nat"

fun groups_loop ::
  "(nat \<Rightarrow> real list \<Rightarrow> real list \<Rightarrow> real \<Rightarrow> real) \<Rightarrow> tmy_key dataframe \<Rightarrow> kind \<Rightarrow>
   (date_key \<times> timestamp list) list \<Rightarrow> (date_key \<rightharpoonup> day_table) \<Rightarrow>
   error + (date_key \<rightharpoonup> day_table)" where
  "groups_loop spl tmy_data knd [] climate_data = Inr climate_data"
| "groups_loop spl tmy_data knd (((year, month, day), DatetimeIndex_obj) # items) climate_data =
     (case day_group spl tmy_data knd month day DatetimeIndex_obj of
        Inl e \<Rightarrow> Inl e
      | Inr tbl \<Rightarrow>
          groups_loop spl tmy_data knd items (climate_data((year, month, day) \<mapsto> tbl)))"

text \<open>
  \<^verbatim>\<open>climate_data_from_pvgis_tmy_dataframe\<close>; \<open>time_data\<close> is the list of the items
  of the dictionary, in the order the loop visits them.
\<close>

definition climate_data_from_pvgis_tmy_dataframe ::
  "(nat \<Rightarrow> real list \<Rightarrow> real list \<Rightarrow> real \<Rightarrow> real) \<Rightarrow> (date_key \<times> timestamp list) list \<Rightarrow>
   tmy_key dataframe \<Rightarrow> kind \<Rightarrow> error + (date_key \<rightharpoonup> day_table)" where
  "climate_data_from_pvgis_tmy_dataframe spl time_data tmy_data interp_method =
     groups_loop spl tmy_data interp_method time_data Map.empty"

section \<open>Reading a table\<close>

text \<open>\<^verbatim>\<open>key in df.index\<close>, the number of rows under a key, and one column \<^verbatim>\<open>df[col]\<close>
  (the index labels with the values of the column).\<close>

definition has_key :: "'i dataframe \<Rightarrow> 'i \<Rightarrow> bool" where
  "has_key df key = (key \<in> fst ` set (df_rows df))"

definition rows_with_key :: "'i dataframe \<Rightarrow> 'i \<Rightarrow> nat" where
  "rows_with_key df k = length (filter (\<lambda>(i, r). i = k) (df_rows df))"

definition column_values :: "'i dataframe \<Rightarrow> string \<Rightarrow> ('i \<times> real) list" where
  "column_values df col = map (\<lambda>(k, r). (k, r col)) (df_rows df)"

text \<open>What a table of the result holds besides its index: the column labels and the columns.\<close>

definition table_values :: "day_table \<Rightarrow> string list \<times> (string \<rightharpoonup> real list)" where
  "table_values tbl = (dt_columns tbl, dt_data tbl)"

text \<open>The Month, Day and Hour that the fetcher reads off the converted label of a row.\<close>

definition local_key :: "(timestamp \<Rightarrow> timestamp) \<Rightarrow> timestamp \<Rightarrow> tmy_key" where
  "local_key tz_convert t = (t_month (tz_convert t), t_day (tz_convert t), t_hour (tz_convert t))"

section \<open>The calendar of the TMY table\<close>

text \<open>
  The keys of a TMY table as the specification describes it: one (month, day, hour)
  for every hour of a year without a leap day, in ascending order.
\<close>

definition days_in_month :: "nat \<Rightarrow> nat" where
  "days_in_month m = (if m = 2 then 28 else if m = 4 \<or> m = 6 \<or> m = 9 \<or> m = 11 then 30 else 31)"

definition valid_key :: "tmy_key \<Rightarrow> bool" where
  "valid_key k =
     (case k of (m, d, h) \<Rightarrow> 1 \<le> m \<and> m \<le> 12 \<and> 1 \<le> d \<and> d \<le> days_in_month m \<and> h < 24)"

definition day_keys :: "nat \<Rightarrow> nat \<Rightarrow> tmy_key list" where
  "day_keys m d = map (\<lambda>h. (m, d, h)) [0..<24]"

definition month_keys :: "nat \<Rightarrow> tmy_key list" where
  "month_keys m = concat (map (day_keys m) [1..<Suc (days_in_month m)])"

definition all_keys :: "tmy_key list" where
  "all_keys = concat (map month_keys [1..<13])"

definition well_formed_tmy :: "tmy_key dataframe \<Rightarrow> bool" where
  "well_formed_tmy tmy_data = (map fst (df_rows tmy_data) = all_keys)"

text \<open>
  The rows of a day standing in the table as its 24 hours in ascending order, as
  \<^verbatim>\<open>get_pvgis_tmy_dataframe\<close> sorts them.
\<close>

definition day_in_hour_order :: "tmy_key dataframe \<Rightarrow> nat \<Rightarrow> nat \<Rightarrow> bool" where
  "day_in_hour_order tmy_data month day =
     (map fst (filter (\<lambda>(k, r). fst k = month \<and> fst (snd k) = day) (df_rows tmy_data)) =
      day_keys month day)"

text \<open>
  The dates a group can be keyed by: a (month, day) of the calendar of the TMY table, or
  February 29. The clock fields of a \<^verbatim>\<open>pandas.Timestamp\<close> are in range.
\<close>

definition valid_date :: "nat \<Rightarrow> nat \<Rightarrow> bool" where
  "valid_date month day =
     (1 \<le> month \<and> month \<le> 12 \<and> 1 \<le> day \<and> (day \<le> days_in_month month \<or> (month, day) = (2, 29)))"

definition valid_time :: "timestamp \<Rightarrow> bool" where
  "valid_time t = (t_hour t < 24 \<and> t_minute t < 60 \<and> t_second t < 60)"

section \<open>A zone with daylight saving time\<close>

text \<open>
  The wall clock of the zone \<^verbatim>\<open>Europe/Berlin\<close> in 2015, as \<^verbatim>\<open>tz_convert\<close> gives it
  for a UTC label on the hour: one hour ahead of UTC, two hours from March 29, 01:00 UTC
  to October 25, 01:00 UTC. The hours are added one at a time, over the ends of days,
  months and years.
\<close>

definition is_leap :: "int \<Rightarrow> bool" where
  "is_leap y = (y mod 4 = 0 \<and> (y mod 100 \<noteq> 0 \<or> y mod 400 = 0))"

definition month_length :: "int \<Rightarrow> nat \<Rightarrow> nat" where
  "month_length y m = (if m = 2 \<and> is_leap y then 29 else days_in_month m)"

definition next_hour :: "timestamp \<Rightarrow> timestamp" where
  "next_hour t =
     (if t_hour t < 23 then t\<lparr>t_hour := t_hour t + 1\<rparr>
      else if t_day t < month_length (t_year t) (t_month t)
        then t\<lparr>t_day := t_day t + 1, t_hour := 0\<rparr>
      else if t_month t < 12 then t\<lparr>t_month := t_month t + 1, t_day := 1, t_hour := 0\<rparr>
      else t\<lparr>t_year := t_year t + 1, t_month := 1, t_day := 1, t_hour := 0\<rparr>)"

definition berlin_offset_2015 :: "timestamp \<Rightarrow> nat" where
  "berlin_offset_2015 t =
     (let mdh = (t_month t, t_day t, t_hour t)
      in if (3, 29, 1) \<le> mdh \<and> mdh < (10, 25, 1) then 2 else 1)"

definition tz_convert_berlin_2015 :: "timestamp \<Rightarrow> timestamp" where
  "tz_convert_berlin_2015 t = (next_hour ^^ berlin_offset_2015 t) t"

section \<open>Concrete tables\<close>

text \<open>
  The column labels pvlib gives the PVGIS response (with \<^verbatim>\<open>map_variables = True\<close>),
  and the nine labels the docstring of \<^verbatim>\<open>get_pvgis_tmy_dataframe\<close> lists for its
  result.
\<close>

definition pvgis_columns :: "string list" where
  "pvgis_columns =
     [''temp_air'', ''relative_humidity'', ''ghi'', ''dni'', ''dhi'', ''IR(h)'',
      ''wind_speed'', ''wind_direction'', ''pressure'']"

definition documented_columns :: "string list" where
  "documented_columns =
     [''T2m'', ''RH'', ''G(h)'', ''Gb(n)'', ''Gd(h)'', ''IR(h)'', ''WS10m'', ''WD10m'', ''SP'']"

definition at_time :: "int \<Rightarrow> nat \<Rightarrow> nat \<Rightarrow> nat \<Rightarrow> nat \<Rightarrow> nat \<Rightarrow> timestamp" where
  "at_time y m d h mi s =
     \<lparr>t_year = y, t_month = m, t_day = d, t_hour = h, t_minute = mi, t_second = s\<rparr>"

text \<open>
  A table with the rows of June 15 and the first hour of June 16; the same table with
  every column but \<^verbatim>\<open>T2m\<close> set to zero; the nodes of column \<^verbatim>\<open>T2m\<close> for June 15.
\<close>

definition june_tmy :: "tmy_key dataframe" where
  "june_tmy =
     \<lparr>df_columns = documented_columns,
      df_rows = map (\<lambda>h. ((6, 15, h), \<lambda>c. 10 + real h)) [0..<24] @ [((6, 16, 0), \<lambda>c. 9)]\<rparr>"

definition june_tmy_other :: "tmy_key dataframe" where
  "june_tmy_other =
     \<lparr>df_columns = documented_columns,
      df_rows = map (\<lambda>h. ((6, 15, h), \<lambda>c. if c = ''T2m'' then 10 + real h else 0)) [0..<24] @
                [((6, 16, 0), \<lambda>c. if c = ''T2m'' then 9 else 0)]\<rparr>"


text \<open>
  One group of target timestamps, June 15 at 14:00:00 and at 10:30:00, and the table
  the interpolator builds for it from \<open>june_tmy\<close> with the method \<^verbatim>\<open>'linear'\<close>. That
  method never calls the spline; the concrete runs with it pass the linear interpolant
  for the parameter.
\<close>

definition june_times :: "timestamp list" where
  "june_times = [at_time 2023 6 15 14 0 0, at_time 2023 6 15 10 30 0]"

definition linear_spline :: "nat \<Rightarrow> real list \<Rightarrow> real list \<Rightarrow> real \<Rightarrow> real" where
  "linear_spline k = call_linear_np"

definition june_day_table :: "day_table" where
  "june_day_table =
     \<lparr>dt_index = june_times,
      dt_columns = ''hms_float'' # documented_columns,
      dt_data = (\<lambda>c. if c \<in> set documented_columns then Some [24, 41 / 2]
                     else if c = ''hms_float'' then Some [14, 21 / 2] else None)\<rparr>"


text \<open>
  A table with the rows of February 28 and the first hour of March 1, one column, and
  two groups with the same time of day, one on February 29 and one on February 28.
\<close>

definition february_tmy :: "tmy_key dataframe" where
  "february_tmy =
     \<lparr>df_columns = [''T2m''],
      df_rows = map (\<lambda>h. ((2, 28, h), \<lambda>c. 2 * real h)) [0..<24] @ [((3, 1, 0), \<lambda>c. 5)]\<rparr>"

definition leap_times :: "timestamp list" where
  "leap_times = [at_time 2024 2 29 7 30 0]"

definition february_times :: "timestamp list" where
  "february_times = [at_time 2024 2 28 7 30 0]"

definition february_day_table :: "timestamp list \<Rightarrow> day_table" where
  "february_day_table idx =
     \<lparr>dt_index = idx,
      dt_columns = [''hms_float'', ''T2m''],
      dt_data = [''hms_float'' \<mapsto> [15 / 2], ''T2m'' \<mapsto> [15]]\<rparr>"

text \<open>
  A table with every key of the calendar, each cell holding the hour of its row, and a
  response of 8760 hourly rows, the hours of 2015 in UTC.
\<close>

definition full_tmy :: "tmy_key dataframe" where
  "full_tmy =
     \<lparr>df_columns = documented_columns,
      df_rows = map (\<lambda>k. (k, \<lambda>c. real (snd (snd k)))) all_keys\<rparr>"

definition response_2015 :: "timestamp dataframe" where
  "response_2015 =
     \<lparr>df_columns = pvgis_columns,
      df_rows = map (\<lambda>(m, d, h). (at_time 2015 m d h 0 0, \<lambda>c. 0)) all_keys\<rparr>"

section \<open>Iterating over the columns and the groups\<close>

lemma interp_columns_shape:
  "interp_columns spl tmy knd m d hms cols tbl = Inr tbl' \<Longrightarrow>
   dt_index tbl' = dt_index tbl \<and> dt_columns tbl' = dt_columns tbl"
  by (induction cols arbitrary: tbl) (auto split: sum.splits)

lemma interp_columns_other:
  "interp_columns spl tmy knd m d hms cols tbl = Inr tbl' \<Longrightarrow> c \<notin> set cols \<Longrightarrow>
   dt_data tbl' c = dt_data tbl c"
  by (induction cols arbitrary: tbl) (auto split: sum.splits)


lemma groups_loop_dom:
  "groups_loop spl tmy knd items cd = Inr cd' \<Longrightarrow> dom cd' = dom cd \<union> fst ` set items"
  by (induction spl tmy knd items cd rule: groups_loop.induct) (auto split: sum.splits)

lemma groups_loop_origin:
  "groups_loop spl tmy knd items cd = Inr cd' \<Longrightarrow> cd' k = Some tbl \<Longrightarrow>
   cd k = Some tbl \<or>
   (\<exists>year month day idx. ((year, month, day), idx) \<in> set items \<and> k = (year, month, day) \<and>
      day_group spl tmy knd month day idx = Inr tbl)"
proof (induction spl tmy knd items cd rule: groups_loop.induct)
  case (1 spl tmy knd cd)
  then show ?case by simp
next
  case (2 spl tmy knd year month day idx items cd)
  from "2.prems"(1) obtain t where
    t: "day_group spl tmy knd month day idx = Inr t" and
    rest: "groups_loop spl tmy knd items (cd((year, month, day) \<mapsto> t)) = Inr cd'"
    by (auto split: sum.splits)
  from "2.IH" [OF t rest "2.prems"(2)] show ?case
    using t by (auto split: if_splits)
qed

lemma groups_loop_keep:
  "groups_loop spl tmy knd items cd = Inr cd' \<Longrightarrow> k \<notin> fst ` set items \<Longrightarrow> cd' k = cd k"
  by (induction spl tmy knd items cd rule: groups_loop.induct) (auto split: sum.splits)

lemma groups_loop_item:
  "groups_loop spl tmy knd items cd = Inr cd' \<Longrightarrow> distinct (map fst items) \<Longrightarrow>
   ((year, month, day), idx) \<in> set items \<Longrightarrow>
   \<exists>tbl. day_group spl tmy knd month day idx = Inr tbl \<and> cd' (year, month, day) = Some tbl"
proof (induction spl tmy knd items cd rule: groups_loop.induct)
  case (1 spl tmy knd cd)
  then show ?case by simp
next
  case (2 spl tmy knd y m d i items cd)
  from "2.prems"(1) obtain t where
    t: "day_group spl tmy knd m d i = Inr t" and
    rest: "groups_loop spl tmy knd items (cd((y, m, d) \<mapsto> t)) = Inr cd'"
    by (auto split: sum.splits)
  show ?case
  proof (cases "((year, month, day), idx) \<in> set items")
    case True
    then show ?thesis using "2.IH" [OF t rest] "2.prems"(2) by simp
  next
    case False
    with "2.prems"(3) have eq: "y = year" "m = month" "d = day" "i = idx" by auto
    have "(y, m, d) \<notin> fst ` set items" using "2.prems"(2) by auto
    from groups_loop_keep [OF rest this] show ?thesis using t eq by simp
  qed
qed

lemma groups_loop_fail:
  "((year, month, day), idx) \<in> set items \<Longrightarrow> day_group spl tmy knd month day idx = Inl e \<Longrightarrow>
   \<exists>e'. groups_loop spl tmy knd items cd = Inl e'"
  by (induction spl tmy knd items cd rule: groups_loop.induct) (auto split: sum.splits)

section \<open>Concrete runs\<close>

lemma upt24: "[0..<24] = [0,1,2,3,4,5,6,7,8,9,10,11,12,13,14,15,16,17,18,19,20,21,22,23]"
  by (simp add: upt_conv_Cons)

lemma upt25: "[0..<25] = [0,1,2,3,4,5,6,7,8,9,10,11,12,13,14,15,16,17,18,19,20,21,22,23,24]"
  by (simp add: upt_conv_Cons)

lemmas june_eval =
  day_group_def lookup_day_def y_interp_def loc_day_def closing_node_def loc_hour_def
  june_tmy_def upt24 upt25 documented_columns_def interp1d_def x_interp_def
  call_linear_np_def hms_float_of_def at_time_def june_times_def linear_spline_def
  june_day_table_def

lemma june_day_group:
  "day_group linear_spline june_tmy Linear 6 15 june_times = Inr june_day_table"
  by (simp add: june_eval fun_eq_iff)

lemma june_run:
  "climate_data_from_pvgis_tmy_dataframe linear_spline [((2023, 6, 15), june_times)]
     june_tmy Linear = Inr [(2023, 6, 15) \<mapsto> june_day_table]"
  by (simp add: climate_data_from_pvgis_tmy_dataframe_def june_day_group)

section \<open>Shape of the result\<close>

lemma day_group_shape:
  "day_group spl tmy knd month day idx = Inr tbl \<Longrightarrow>
   dt_index tbl = idx \<and> dt_columns tbl = ''hms_float'' # df_columns tmy"
  by (auto simp: day_group_def Let_def dest: interp_columns_shape)

lemma result_origin:
  assumes "climate_data_from_pvgis_tmy_dataframe spl time_data tmy knd = Inr climate_data"
    and "climate_data k = Some tbl"
  shows "\<exists>year month day idx. ((year, month, day), idx) \<in> set time_data \<and>
           k = (year, month, day) \<and> day_group spl tmy knd month day idx = Inr tbl"
  using groups_loop_origin [OF assms(1) [unfolded climate_data_from_pvgis_tmy_dataframe_def] assms(2)]
  by simp

section \<open>Lookups, the closing node and the errors\<close>

lemma loc_hour_absent:
  "\<not> has_key tmy key \<Longrightarrow>
   loc_hour tmy key col = Inl (KeyError [fst key, fst (snd key), snd (snd key)])"
proof -
  assume "\<not> has_key tmy key"
  then have "filter (\<lambda>(k, r). k = key) (df_rows tmy) = []"
    by (force simp: filter_empty_conv has_key_def)
  then show ?thesis by (simp add: loc_hour_def)
qed

lemma loc_hour_present:
  "has_key tmy key \<Longrightarrow> \<exists>c. loc_hour tmy key col = Inr c"
proof -
  assume "has_key tmy key"
  then have "filter (\<lambda>(k, r). k = key) (df_rows tmy) \<noteq> []"
    by (force simp: filter_empty_conv has_key_def)
  then show ?thesis
    by (auto simp: loc_hour_def Let_def split: list.splits)
qed

lemma loc_hour_cases:
  "(has_key tmy key \<and> (\<exists>c. loc_hour tmy key col = Inr c)) \<or>
   (\<not> has_key tmy key \<and>
      loc_hour tmy key col = Inl (KeyError [fst key, fst (snd key), snd (snd key)]))"
  using loc_hour_absent loc_hour_present by blast

lemma closing_node_chain:
  "closing_node tmy month day' col =
     (if has_key tmy (month, day' + 1, 0) then loc_hour tmy (month, day' + 1, 0) col
      else if has_key tmy (month + 1, 1, 0) then loc_hour tmy (month + 1, 1, 0) col
      else loc_hour tmy (1, 1, 0) col)"
  using loc_hour_cases [of tmy "(month, day' + 1, 0)" col]
    loc_hour_cases [of tmy "(month + 1, 1, 0)" col]
  by (auto simp: closing_node_def split: sum.splits error.splits)

lemma closing_node_error:
  "closing_node tmy month day' col = Inl e \<Longrightarrow>
   e = KeyError [1, 1, 0] \<and> \<not> has_key tmy (1, 1, 0) \<and>
   \<not> has_key tmy (month, day' + 1, 0) \<and>
   \<not> has_key tmy (month + 1, 1, 0)"
  using loc_hour_cases [of tmy "(month, day' + 1, 0)" col]
    loc_hour_cases [of tmy "(month + 1, 1, 0)" col]
    loc_hour_cases [of tmy "(1, 1, 0)" col]
  by (auto simp: closing_node_chain split: if_splits)


lemma y_interp_error:
  "y_interp tmy month day' col = Inl e \<Longrightarrow>
   e = KeyError [month, day'] \<or>
   (e = KeyError [1, 1, 0] \<and> \<not> has_key tmy (1, 1, 0))"
  by (auto simp: y_interp_def loc_day_def Let_def split: sum.splits if_splits
      dest: closing_node_error)

lemma interp1d_error: "interp1d spl x y knd x_new = Inl e \<Longrightarrow> e = ValueError"
  by (auto simp: interp1d_def split: option.splits if_splits)

lemma interp_columns_error:
  "interp_columns spl tmy knd month day' hms cols tbl = Inl e \<Longrightarrow>
   e = ValueError \<or> e = KeyError [month, day'] \<or>
   (e = KeyError [1, 1, 0] \<and> \<not> has_key tmy (1, 1, 0))"
proof (induction cols arbitrary: tbl)
  case Nil
  then show ?case by simp
next
  case (Cons col cols)
  then show ?case
    by (auto split: sum.splits dest: y_interp_error interp1d_error)
qed

lemma groups_loop_error:
  "groups_loop spl tmy knd items cd = Inl e \<Longrightarrow>
   \<exists>year month day idx. ((year, month, day), idx) \<in> set items \<and>
     day_group spl tmy knd month day idx = Inl e"
  by (induction spl tmy knd items cd rule: groups_loop.induct) (auto split: sum.splits)

lemma result_error:
  assumes "climate_data_from_pvgis_tmy_dataframe spl time_data tmy knd = Inl e"
  shows "e = ValueError \<or> (\<exists>month day'. e = KeyError [month, day']) \<or>
     (e = KeyError [1, 1, 0] \<and> \<not> has_key tmy (1, 1, 0))"
proof -
  from groups_loop_error [OF assms [unfolded climate_data_from_pvgis_tmy_dataframe_def]]
  obtain month day idx where "day_group spl tmy knd month day idx = Inl e" by blast
  then show ?thesis
    by (auto simp: day_group_def Let_def dest!: interp_columns_error)
qed

section \<open>The keys of a well-formed TMY table\<close>

lemma set_day_keys: "set (day_keys m d) = {k. \<exists>h<24. k = (m, d, h)}"
  by (auto simp: day_keys_def)

lemma set_month_keys:
  "set (month_keys m) = {k. \<exists>d h. 1 \<le> d \<and> d \<le> days_in_month m \<and> h < 24 \<and> k = (m, d, h)}"
proof -
  have "set (month_keys m) = (\<Union>d \<in> {1..<Suc (days_in_month m)}. set (day_keys m d))"
    unfolding month_keys_def set_concat set_map set_upt by blast
  also have "\<dots> = {k. \<exists>d h. 1 \<le> d \<and> d \<le> days_in_month m \<and> h < 24 \<and> k = (m, d, h)}"
    unfolding set_day_keys by (auto simp del: upt_Suc simp: less_Suc_eq_le)
  finally show ?thesis .
qed

lemma set_all_keys: "set all_keys = {k. valid_key k}"
  unfolding all_keys_def set_concat set_map set_upt
  by (auto simp: set_month_keys valid_key_def)

lemma distinct_concat_map:
  assumes "distinct xs"
    and "\<And>x. x \<in> set xs \<Longrightarrow> distinct (f x)"
    and "\<And>x y. x \<in> set xs \<Longrightarrow> y \<in> set xs \<Longrightarrow> x \<noteq> y \<Longrightarrow> set (f x) \<inter> set (f y) = {}"
  shows "distinct (concat (map f xs))"
  using assms
proof (induction xs)
  case Nil
  then show ?case by simp
next
  case (Cons a xs)
  have "distinct (concat (map f xs))"
    using Cons by auto
  moreover have "distinct (f a)" using Cons.prems(2) by simp
  moreover have "set (f a) \<inter> set (f y) = {}" if "y \<in> set xs" for y
  proof -
    have "a \<noteq> y" using Cons.prems(1) that by auto
    then show ?thesis using Cons.prems(3) [of a y] that by simp
  qed
  ultimately show ?case by auto
qed

lemma distinct_day_keys: "distinct (day_keys m d)"
  unfolding day_keys_def by (simp add: distinct_map inj_on_def)

lemma distinct_month_keys: "distinct (month_keys m)"
  unfolding month_keys_def
proof (rule distinct_concat_map)
  show "distinct [1..<Suc (days_in_month m)]" by (rule distinct_upt)
  show "\<And>x. distinct (day_keys m x)" by (rule distinct_day_keys)
  show "\<And>x y. x \<noteq> y \<Longrightarrow> set (day_keys m x) \<inter> set (day_keys m y) = {}"
    by (auto simp: set_day_keys)
qed

lemma distinct_all_keys: "distinct all_keys"
  unfolding all_keys_def
proof (rule distinct_concat_map)
  show "distinct [1..<13::nat]" by (rule distinct_upt)
  show "\<And>x. distinct (month_keys x)" by (rule distinct_month_keys)
  show "\<And>x y. x \<noteq> y \<Longrightarrow> set (month_keys x) \<inter> set (month_keys y) = {}"
    by (auto simp: set_month_keys)
qed

lemma length_day_keys: "length (day_keys m d) = 24"
  by (simp add: day_keys_def)

lemma length_month_keys: "length (month_keys m) = 24 * days_in_month m"
  by (simp add: month_keys_def length_concat comp_def length_day_keys sum_list_triv del: upt_Suc)

lemma upt_months: "[Suc 0..<13] = [1, 2, 3, 4, 5, 6, 7, 8, 9, 10, 11, 12 :: nat]"
  by (simp add: upt_conv_Cons)

lemma length_all_keys: "length all_keys = 8760"
  by (simp add: all_keys_def length_concat comp_def length_month_keys upt_months days_in_month_def)

lemma well_formed_keys:
  assumes "well_formed_tmy tmy"
  shows "has_key tmy k = valid_key k"
proof -
  have "fst ` set (df_rows tmy) = set all_keys"
    using assms unfolding well_formed_tmy_def by (metis set_map)
  then show ?thesis by (simp add: has_key_def set_all_keys)
qed

lemma well_formed_distinct: "well_formed_tmy tmy \<Longrightarrow> distinct (map fst (df_rows tmy))"
  by (simp add: well_formed_tmy_def distinct_all_keys)

lemma well_formed_full_tmy: "well_formed_tmy full_tmy"
  by (simp add: well_formed_tmy_def full_tmy_def comp_def)

section \<open>Resolution of the closing node\<close>

lemma filter_key_absent:
  "key \<notin> fst ` set rows \<Longrightarrow> filter (\<lambda>(k, r). k = key) rows = []"
  by (induction rows) auto

lemma filter_key_unique:
  "distinct (map fst rows) \<Longrightarrow> (key, r) \<in> set rows \<Longrightarrow>
   filter (\<lambda>(k, r). k = key) rows = [(key, r)]"
proof (induction rows)
  case Nil
  then show ?case by simp
next
  case (Cons a rows)
  show ?case
  proof (cases "(key, r) = a")
    case True
    then have "key \<notin> fst ` set rows" using Cons.prems(1) by (simp flip: True)
    then have "filter (\<lambda>(k, r). k = key) rows = []"
      by (rule filter_key_absent)
    with True [symmetric] show ?thesis by simp
  next
    case False
    with Cons.prems(2) have in_rows: "(key, r) \<in> set rows" by simp
    then have "key \<in> fst ` set rows" by force
    moreover have "fst a \<notin> fst ` set rows" using Cons.prems(1) by simp
    ultimately have "fst a \<noteq> key" by blast
    then show ?thesis using Cons.IH in_rows Cons.prems(1) by (auto split: prod.splits)
  qed
qed

lemma loc_hour_unique:
  assumes "distinct (map fst (df_rows tmy))" and "(key, r) \<in> set (df_rows tmy)"
  shows "loc_hour tmy key col = Inr (Scalar (r col))"
  using filter_key_unique [OF assms] by (simp add: loc_hour_def)


lemma full_tmy_january: "has_key full_tmy (1, 1, 0)"
  by (simp add: well_formed_keys [OF well_formed_full_tmy] valid_key_def days_in_month_def)

section \<open>The end of the year and a missing closing node\<close>

lemma day_group_error:
  "day_group spl tmy knd month day idx = Inl e \<Longrightarrow>
   e = ValueError \<or> e = KeyError [month, lookup_day month day] \<or>
   (e = KeyError [1, 1, 0] \<and> \<not> has_key tmy (1, 1, 0))"
  unfolding day_group_def Let_def by (rule interp_columns_error)

section \<open>The leap day\<close>

lemma interp_columns_index:
  "dt_columns tbl = dt_columns tbl' \<Longrightarrow> dt_data tbl = dt_data tbl' \<Longrightarrow>
   map_sum id table_values (interp_columns spl tmy knd m d hms cols tbl) =
   map_sum id table_values (interp_columns spl tmy knd m d hms cols tbl')"
proof (induction cols arbitrary: tbl tbl')
  case Nil
  then show ?case by (simp add: table_values_def)
next
  case (Cons col cols)
  show ?case
  proof (cases "y_interp tmy m d col")
    case (Inl e)
    then show ?thesis by simp
  next
    case ys: (Inr ys)
    show ?thesis
    proof (cases "interp1d spl x_interp ys knd hms")
      case (Inl e)
      with ys show ?thesis by simp
    next
      case (Inr vals)
      have "map_sum id table_values (interp_columns spl tmy knd m d hms cols
            (tbl\<lparr>dt_data := (dt_data tbl)(col \<mapsto> vals)\<rparr>)) =
          map_sum id table_values (interp_columns spl tmy knd m d hms cols
            (tbl'\<lparr>dt_data := (dt_data tbl')(col \<mapsto> vals)\<rparr>))"
        by (rule Cons.IH) (use Cons.prems in simp_all)
      with ys Inr show ?thesis by (simp add: id_def)
    qed
  qed
qed

lemma leap_day_group:
  "day_group linear_spline february_tmy Linear 2 29 leap_times = Inr (february_day_table leap_times)"
  by (simp add: day_group_def lookup_day_def y_interp_def loc_day_def closing_node_def
      loc_hour_def february_tmy_def upt24 upt25 interp1d_def x_interp_def call_linear_np_def
      hms_float_of_def at_time_def leap_times_def linear_spline_def february_day_table_def)

section \<open>The tables of the result\<close>

lemma hms_float_range:
  assumes "valid_time t"
  shows "0 \<le> hms_float_of t \<and> hms_float_of t < 24"
proof -
  have h: "real (t_hour t) \<le> 23" and m: "real (t_minute t) \<le> 59" and s: "real (t_second t) \<le> 59"
    using assms by (auto simp: valid_time_def)
  have "0 \<le> hms_float_of t" by (simp add: hms_float_of_def)
  moreover have "hms_float_of t < 24"
    unfolding hms_float_of_def using h m s by (simp add: field_simps)
  ultimately show ?thesis by simp
qed

lemma interp1d_length:
  "interp1d spl x y knd x_new = Inr vals \<Longrightarrow> length vals = length x_new"
  by (auto simp: interp1d_def split: option.splits if_splits)

lemma interp_columns_lengths:
  "interp_columns spl tmy knd m d hms cols tbl = Inr tbl' \<Longrightarrow>
   (\<And>c vals. dt_data tbl c = Some vals \<Longrightarrow> length vals = length hms) \<Longrightarrow>
   dt_data tbl' c = Some vals \<Longrightarrow> length vals = length hms"
proof (induction cols arbitrary: tbl)
  case Nil
  then show ?case by simp
next
  case (Cons col cols)
  from Cons.prems(1) obtain ys vs where
    vs: "interp1d spl x_interp ys knd hms = Inr vs" and
    rest: "interp_columns spl tmy knd m d hms cols (tbl\<lparr>dt_data := (dt_data tbl)(col \<mapsto> vs)\<rparr>) = Inr tbl'"
    by (auto split: sum.splits)
  show ?case
  proof (rule Cons.IH [OF rest _ Cons.prems(3)])
    fix c' vals'
    assume "dt_data (tbl\<lparr>dt_data := (dt_data tbl)(col \<mapsto> vs)\<rparr>) c' = Some vals'"
    then show "length vals' = length hms"
      using interp1d_length [OF vs] Cons.prems(2) [of c' vals'] by (auto split: if_splits)
  qed
qed

lemma interp_columns_assigned:
  "interp_columns spl tmy knd m d hms cols tbl = Inr tbl' \<Longrightarrow>
   dom (dt_data tbl') = dom (dt_data tbl) \<union> set cols"
  by (induction cols arbitrary: tbl) (auto split: sum.splits)

lemma day_group_table:
  assumes "day_group spl tmy knd month day idx = Inr tbl"
  shows "dt_index tbl = idx"
    and "dt_columns tbl = ''hms_float'' # df_columns tmy"
    and "dom (dt_data tbl) = set (dt_columns tbl)"
    and "dt_data tbl c = Some vals \<Longrightarrow> length vals = length idx"
    and "''hms_float'' \<notin> set (df_columns tmy) \<Longrightarrow>
      dt_data tbl ''hms_float'' = Some (map hms_float_of idx)"
proof -
  let ?hms = "map hms_float_of idx"
  let ?t0 = "\<lparr>dt_index = idx, dt_columns = ''hms_float'' # df_columns tmy,
      dt_data = [''hms_float'' \<mapsto> ?hms]\<rparr>"
  have run: "interp_columns spl tmy knd month (lookup_day month day) ?hms (df_columns tmy) ?t0 = Inr tbl"
    using assms by (simp add: day_group_def Let_def)
  from interp_columns_shape [OF run] show "dt_index tbl = idx"
    and cols: "dt_columns tbl = ''hms_float'' # df_columns tmy" by simp_all
  from interp_columns_assigned [OF run] cols show "dom (dt_data tbl) = set (dt_columns tbl)"
    by simp
  show "length vals = length idx" if "dt_data tbl c = Some vals"
  proof -
    have "length vals = length ?hms"
      by (rule interp_columns_lengths [OF run _ that]) (auto split: if_splits)
    then show ?thesis by simp
  qed
  show "dt_data tbl ''hms_float'' = Some ?hms" if "''hms_float'' \<notin> set (df_columns tmy)"
    using interp_columns_other [OF run that] by simp
qed

section \<open>Values at the hour marks\<close>






section \<open>Independence of the columns\<close>

lemma column_values_keys: "map fst (column_values df col) = map fst (df_rows df)"
  unfolding column_values_def by (induction "df_rows df" arbitrary: df) auto

lemma filter_column_values:
  "map (\<lambda>(k, r). r col) (filter (\<lambda>(k, r). Q k) rows) =
   map snd (filter (\<lambda>(k, v). Q k) (map (\<lambda>(k, r). (k, r col)) rows))"
  by (induction rows) auto

lemma loc_day_values:
  "loc_day tmy month day col =
     (let vs = map (\<lambda>(k, r). r col)
                 (filter (\<lambda>(k, r). fst k = month \<and> fst (snd k) = day) (df_rows tmy))
      in if vs = [] then Inl (KeyError [month, day]) else Inr vs)"
  by (simp add: loc_day_def Let_def)

lemma loc_hour_values:
  "loc_hour tmy key col =
     (let vs = map (\<lambda>(k, r). r col) (filter (\<lambda>(k, r). k = key) (df_rows tmy))
      in case vs of
           [] \<Rightarrow> Inl (KeyError [fst key, fst (snd key), snd (snd key)])
         | [v] \<Rightarrow> Inr (Scalar v)
         | _ \<Rightarrow> Inr (Series vs))"
  by (auto simp: loc_hour_def Let_def split: list.splits)

lemma y_interp_column:
  assumes "column_values tmy1 col = column_values tmy2 col"
  shows "y_interp tmy1 month day' col = y_interp tmy2 month day' col"
proof -
  have v: "map (\<lambda>(k, r). r col) (filter (\<lambda>(k, r). Q k) (df_rows tmy1)) =
      map (\<lambda>(k, r). r col) (filter (\<lambda>(k, r). Q k) (df_rows tmy2))" for Q
    unfolding filter_column_values using assms by (simp only: column_values_def)
  have k: "map fst (df_rows tmy1) = map fst (df_rows tmy2)"
    using assms column_values_keys by metis
  have h: "loc_hour tmy1 key col = loc_hour tmy2 key col" for key
    unfolding loc_hour_values by (simp only: v [of "\<lambda>k. k = key"])
  have d: "loc_day tmy1 month day' col = loc_day tmy2 month day' col"
    unfolding loc_day_values
    by (simp only: v [of "\<lambda>k. fst k = month \<and> fst (snd k) = day'"])
  have c: "closing_node tmy1 month day' col = closing_node tmy2 month day' col"
    unfolding closing_node_def by (simp only: h)
  show ?thesis unfolding y_interp_def by (simp only: d c)
qed

lemma filter_keys: "map fst (filter (\<lambda>(k, r). Q k) rows) = filter Q (map fst rows)"
  by (induction rows) auto

lemma loc_day_status:
  "map_sum id length (loc_day tmy month day col) =
     (let n = length (filter (\<lambda>k. fst k = month \<and> fst (snd k) = day) (map fst (df_rows tmy)))
      in if n = 0 then Inl (KeyError [month, day]) else Inr n)"
proof -
  let ?sel = "filter (\<lambda>(k, r). fst k = month \<and> fst (snd k) = day) (df_rows tmy)"
  define n where "n = length (filter (\<lambda>k. fst k = month \<and> fst (snd k) = day) (map fst (df_rows tmy)))"
  have "n = length (map fst ?sel)"
    unfolding n_def by (simp only: filter_keys)
  then have len: "length ?sel = n" by simp
  then have "(?sel = []) = (n = 0)" by auto
  then have "map_sum id length (loc_day tmy month day col) =
      (if n = 0 then Inl (KeyError [month, day]) else Inr n)"
    using len by (simp add: loc_day_def Let_def)
  then show ?thesis unfolding n_def Let_def .
qed

lemma loc_hour_status:
  "map_sum id (\<lambda>c. scalars [c] = None) (loc_hour tmy key col) =
     (if has_key tmy key
      then Inr (1 < length (filter (\<lambda>k. k = key) (map fst (df_rows tmy))))
      else Inl (KeyError [fst key, fst (snd key), snd (snd key)]))"
proof (cases "has_key tmy key")
  case False
  then show ?thesis by (simp add: loc_hour_absent)
next
  case True
  let ?sel = "filter (\<lambda>(k, r). k = key) (df_rows tmy)"
  define n where "n = length (filter (\<lambda>k. k = key) (map fst (df_rows tmy)))"
  have "n = length (map fst ?sel)"
    unfolding n_def by (simp only: filter_keys)
  then have len: "length ?sel = n" by simp
  have "map_sum id (\<lambda>c. scalars [c] = None) (loc_hour tmy key col) = Inr (1 < n)"
    using loc_hour_present [OF True, of col] len
    by (auto simp: loc_hour_def Let_def split: list.splits)
  with True show ?thesis unfolding n_def by simp
qed

lemma closing_node_status:
  "map_sum id (\<lambda>c. scalars [c] = None) (closing_node tmy month day' col) =
     (if has_key tmy (month, day' + 1, 0)
        then Inr (1 < length (filter (\<lambda>k. k = (month, day' + 1, 0)) (map fst (df_rows tmy))))
      else if has_key tmy (month + 1, 1, 0)
        then Inr (1 < length (filter (\<lambda>k. k = (month + 1, 1, 0)) (map fst (df_rows tmy))))
      else if has_key tmy (1, 1, 0)
        then Inr (1 < length (filter (\<lambda>k. k = (1, 1, 0)) (map fst (df_rows tmy))))
      else Inl (KeyError [1, 1, 0]))"
  by (simp add: closing_node_chain loc_hour_status)

lemma distinct_once: "distinct xs \<Longrightarrow> \<not> 1 < length (filter (\<lambda>x. x = k) xs)"
  by (induction xs) (auto simp: filter_empty_conv)

lemma has_key_keys:
  "map fst (df_rows tmy1) = map fst (df_rows tmy2) \<Longrightarrow> has_key tmy1 key = has_key tmy2 key"
  unfolding has_key_def by (metis set_map)

lemma scalars_snoc: "(scalars (map Scalar vs @ [c]) = None) = (scalars [c] = None)"
  by (induction vs) (auto split: option.splits)

lemma scalars_length: "scalars ys = Some vs \<Longrightarrow> length vs = length ys"
proof (induction ys arbitrary: vs)
  case Nil
  then show ?case by simp
next
  case (Cons c ys)
  then show ?case by (cases c) (auto split: option.splits)
qed

lemma y_interp_status:
  assumes "map fst (df_rows tmy1) = map fst (df_rows tmy2)"
  shows "map_sum id (\<lambda>ys. (length ys, scalars ys = None)) (y_interp tmy1 month day' col1) =
     map_sum id (\<lambda>ys. (length ys, scalars ys = None)) (y_interp tmy2 month day' col2)"
proof -
  have d: "map_sum id length (loc_day tmy1 month day' col1) =
      map_sum id length (loc_day tmy2 month day' col2)"
    by (simp only: loc_day_status assms)
  have c: "map_sum id (\<lambda>c. scalars [c] = None) (closing_node tmy1 month day' col1) =
      map_sum id (\<lambda>c. scalars [c] = None) (closing_node tmy2 month day' col2)"
    by (simp only: closing_node_status has_key_keys [OF assms] assms)
  show ?thesis
    using d c
    by (cases "loc_day tmy1 month day' col1"; cases "loc_day tmy2 month day' col2";
        cases "closing_node tmy1 month day' col1"; cases "closing_node tmy2 month day' col2")
      (simp_all add: y_interp_def scalars_snoc)
qed

lemma interp1d_status:
  "(\<exists>vals. interp1d spl x y knd x_new = Inr vals) \<longleftrightarrow>
   scalars y \<noteq> None \<and> length x = length y \<and> \<not> list_ex (\<lambda>v. v < hd x \<or> last x < v) x_new"
  by (auto simp: interp1d_def dest: scalars_length split: option.splits)

lemma interp_columns_column:
  assumes cv: "column_values tmy1 col = column_values tmy2 col"
  shows "dt_data t1 col = dt_data t2 col \<Longrightarrow>
    map_sum id (\<lambda>t. dt_data t col) (interp_columns spl tmy1 knd m d hms cols t1) =
    map_sum id (\<lambda>t. dt_data t col) (interp_columns spl tmy2 knd m d hms cols t2)"
proof (induction cols arbitrary: t1 t2)
  case Nil
  then show ?case by simp
next
  case (Cons c cols)
  have k: "map fst (df_rows tmy1) = map fst (df_rows tmy2)"
    using cv column_values_keys by metis
  note st = y_interp_status [OF k, of m d c c]
  show ?case
  proof (cases "y_interp tmy1 m d c")
    case (Inl e)
    with st have "y_interp tmy2 m d c = Inl e"
      by (cases "y_interp tmy2 m d c") auto
    with Inl show ?thesis by simp
  next
    case ys1: (Inr ys1)
    with st obtain ys2 where ys2: "y_interp tmy2 m d c = Inr ys2"
      and shape: "length ys1 = length ys2" "(scalars ys1 = None) = (scalars ys2 = None)"
      by (cases "y_interp tmy2 m d c") auto
    have same: "c = col \<Longrightarrow> ys1 = ys2"
      using y_interp_column [OF cv, of m d] ys1 ys2 by simp
    show ?thesis
    proof (cases "interp1d spl x_interp ys1 knd hms")
      case (Inl e)
      then have e: "e = ValueError" by (rule interp1d_error)
      have "\<not> (\<exists>vals. interp1d spl x_interp ys2 knd hms = Inr vals)"
        using Inl interp1d_status [of spl x_interp ys1 knd hms]
          interp1d_status [of spl x_interp ys2 knd hms] shape by auto
      then obtain e' where e': "interp1d spl x_interp ys2 knd hms = Inl e'"
        by (cases "interp1d spl x_interp ys2 knd hms") auto
      then have "e' = ValueError" by (rule interp1d_error)
      with Inl e e' ys1 ys2 show ?thesis by simp
    next
      case v1: (Inr v1)
      then have "\<exists>vals. interp1d spl x_interp ys2 knd hms = Inr vals"
        using interp1d_status [of spl x_interp ys1 knd hms]
          interp1d_status [of spl x_interp ys2 knd hms] shape by auto
      then obtain v2 where v2: "interp1d spl x_interp ys2 knd hms = Inr v2" ..
      have "c = col \<Longrightarrow> v1 = v2" using same v1 v2 by simp
      then have "dt_data (t1\<lparr>dt_data := (dt_data t1)(c \<mapsto> v1)\<rparr>) col =
          dt_data (t2\<lparr>dt_data := (dt_data t2)(c \<mapsto> v2)\<rparr>) col"
        using Cons.prems by simp
      from Cons.IH [OF this] ys1 ys2 v1 v2 show ?thesis by simp
    qed
  qed
qed

lemma day_group_column:
  assumes "df_columns tmy1 = df_columns tmy2"
    and "column_values tmy1 col = column_values tmy2 col"
  shows "map_sum id (\<lambda>t. dt_data t col) (day_group spl tmy1 knd month day idx) =
    map_sum id (\<lambda>t. dt_data t col) (day_group spl tmy2 knd month day idx)"
  unfolding day_group_def Let_def assms(1)
  by (rule interp_columns_column [OF assms(2)]) simp

lemma groups_loop_column:
  assumes "df_columns tmy1 = df_columns tmy2"
    and "column_values tmy1 col = column_values tmy2 col"
  shows "(\<And>key. map_option (\<lambda>t. dt_data t col) (cd1 key) = map_option (\<lambda>t. dt_data t col) (cd2 key)) \<Longrightarrow>
    map_sum id (\<lambda>cd key. map_option (\<lambda>t. dt_data t col) (cd key))
      (groups_loop spl tmy1 knd items cd1) =
    map_sum id (\<lambda>cd key. map_option (\<lambda>t. dt_data t col) (cd key))
      (groups_loop spl tmy2 knd items cd2)"
proof (induction items arbitrary: cd1 cd2)
  case Nil
  then show ?case by (simp add: fun_eq_iff)
next
  case (Cons item items)
  obtain year month day idx where item: "item = ((year, month, day), idx)"
    by (cases item) auto
  note g = day_group_column [OF assms, of spl knd month day idx]
  show ?case
  proof (cases "day_group spl tmy1 knd month day idx")
    case (Inl e)
    with g have "day_group spl tmy2 knd month day idx = Inl e"
      by (cases "day_group spl tmy2 knd month day idx") auto
    with Inl item show ?thesis by simp
  next
    case t1: (Inr t1)
    with g obtain t2 where t2: "day_group spl tmy2 knd month day idx = Inr t2"
      and eq: "dt_data t1 col = dt_data t2 col"
      by (cases "day_group spl tmy2 knd month day idx") auto
    have "map_sum id (\<lambda>cd key. map_option (\<lambda>t. dt_data t col) (cd key))
        (groups_loop spl tmy1 knd items (cd1((year, month, day) \<mapsto> t1))) =
      map_sum id (\<lambda>cd key. map_option (\<lambda>t. dt_data t col) (cd key))
        (groups_loop spl tmy2 knd items (cd2((year, month, day) \<mapsto> t2)))"
      by (rule Cons.IH) (use Cons.prems eq in simp)
    with t1 t2 item show ?thesis by (simp add: id_def)
  qed
qed

lemma june_other_column: "column_values june_tmy ''T2m'' = column_values june_tmy_other ''T2m''"
  by (simp add: column_values_def june_tmy_def june_tmy_other_def)

section \<open>The rows of the fetched table\<close>

lemma berlin_fall_back_0:
  "local_key tz_convert_berlin_2015 (at_time 2015 10 25 0 0 0) = (10, 25, 2)"
  by (simp add: local_key_def tz_convert_berlin_2015_def berlin_offset_2015_def at_time_def
      next_hour_def numeral_2_eq_2 Let_def)

lemma berlin_fall_back_1:
  "local_key tz_convert_berlin_2015 (at_time 2015 10 25 1 0 0) = (10, 25, 2)"
  by (simp add: local_key_def tz_convert_berlin_2015_def berlin_offset_2015_def at_time_def
      next_hour_def numeral_2_eq_2 Let_def)

lemma two_in_filter:
  assumes "a \<in> set xs" "b \<in> set xs" "a \<noteq> b" "P a" "P b"
  shows "2 \<le> length (filter P xs)"
proof -
  have "{a, b} \<subseteq> set (filter P xs)" using assms by auto
  then have "card {a, b} \<le> card (set (filter P xs))"
    by (intro card_mono) auto
  also have "\<dots> \<le> length (filter P xs)" by (rule card_length)
  finally show ?thesis using assms(3) by simp
qed

lemma count_keys:
  "length (filter (\<lambda>(i, r). i = k) rows) = count (mset (map fst rows)) k"
  by (induction rows) auto

lemma tmy_keys_mset:
  "mset (map fst (df_rows (get_pvgis_tmy_dataframe tz_convert response))) =
   mset (map (\<lambda>(t, r). local_key tz_convert t) (df_rows response))"
proof -
  let ?g = "\<lambda>(t, r). ((t_month (tz_convert t), t_day (tz_convert t), t_hour (tz_convert t)), r)"
  have rows: "df_rows (get_pvgis_tmy_dataframe tz_convert response) =
      map (\<lambda>(k, r). (k, r \<circ> old_col)) (sort_key fst (map ?g (df_rows response)))"
    by (simp add: get_pvgis_tmy_dataframe_def Let_def comp_def case_prod_unfold)
  have "map fst (df_rows (get_pvgis_tmy_dataframe tz_convert response)) =
      map fst (sort_key fst (map ?g (df_rows response)))"
    unfolding rows by (simp add: comp_def case_prod_unfold)
  also have "mset \<dots> = mset (map fst (map ?g (df_rows response)))"
    by (simp only: mset_map mset_sort)
  also have "map fst (map ?g (df_rows response)) =
      map (\<lambda>(t, r). local_key tz_convert t) (df_rows response)"
    by (simp add: local_key_def comp_def case_prod_unfold)
  finally show ?thesis .
qed

lemma tmy_rows_mset:
  "mset (df_rows (get_pvgis_tmy_dataframe tz_convert response)) =
   mset (map (\<lambda>(t, r). (local_key tz_convert t, r \<circ> old_col)) (df_rows response))"
proof -
  let ?g = "\<lambda>(t, r). ((t_month (tz_convert t), t_day (tz_convert t), t_hour (tz_convert t)), r)"
  let ?h = "\<lambda>(k, r). (k, r \<circ> old_col)"
  have rows: "df_rows (get_pvgis_tmy_dataframe tz_convert response) =
      map ?h (sort_key fst (map ?g (df_rows response)))"
    by (simp add: get_pvgis_tmy_dataframe_def Let_def comp_def case_prod_unfold)
  have "mset (map ?h (sort_key fst (map ?g (df_rows response)))) =
      mset (map ?h (map ?g (df_rows response)))"
    by (simp only: mset_map mset_sort)
  also have "map ?h (map ?g (df_rows response)) =
      map (\<lambda>(t, r). (local_key tz_convert t, r \<circ> old_col)) (df_rows response)"
    by (simp add: local_key_def comp_def case_prod_unfold)
  finally show ?thesis unfolding rows .
qed

lemma tmy_rows_sorted:
  "sorted (map fst (df_rows (get_pvgis_tmy_dataframe tz_convert response)))"
proof -
  let ?g = "\<lambda>(t, r). ((t_month (tz_convert t), t_day (tz_convert t), t_hour (tz_convert t)), r)"
  have "map fst (df_rows (get_pvgis_tmy_dataframe tz_convert response)) =
      map fst (sort_key fst (map ?g (df_rows response)))"
    by (simp add: get_pvgis_tmy_dataframe_def Let_def comp_def case_prod_unfold)
  then show ?thesis by (simp only: sorted_sort_key)
qed

lemma count_mset_map: "count (mset (map f xs)) k = length (filter (\<lambda>x. f x = k) xs)"
  by (induction xs) auto

lemma rows_with_key_response:
  "rows_with_key (get_pvgis_tmy_dataframe tz_convert response) k =
   length (filter (\<lambda>(t, r). local_key tz_convert t = k) (df_rows response))"
proof -
  have "rows_with_key (get_pvgis_tmy_dataframe tz_convert response) k =
      count (mset (map (\<lambda>(t, r). local_key tz_convert t) (df_rows response))) k"
    unfolding rows_with_key_def count_keys tmy_keys_mset ..
  also have "\<dots> = length (filter (\<lambda>(t, r). local_key tz_convert t = k) (df_rows response))"
    unfolding case_prod_unfold by (rule count_mset_map)
  finally show ?thesis .
qed

lemma rows_with_key_count:
  "rows_with_key (get_pvgis_tmy_dataframe tz_convert response) k =
   count (mset (map (\<lambda>(t, r). local_key tz_convert t) (df_rows response))) k"
  unfolding rows_with_key_def count_keys tmy_keys_mset ..

lemma one_row_per_key:
  assumes len: "length (df_rows response) = 8760"
    and dist: "distinct (map (\<lambda>(t, r). local_key tz_convert t) (df_rows response))"
    and valid: "\<forall>(t, r) \<in> set (df_rows response). valid_key (local_key tz_convert t)"
    and k: "valid_key k"
  shows "rows_with_key (get_pvgis_tmy_dataframe tz_convert response) k = 1"
proof -
  let ?L = "map (\<lambda>(t, r). local_key tz_convert t) (df_rows response)"
  have sub: "set ?L \<subseteq> set all_keys"
    using valid by (auto simp: set_all_keys)
  have "card (set ?L) = length ?L" using dist by (rule distinct_card)
  also have "\<dots> = card (set all_keys)"
    using len by (simp add: distinct_card [OF distinct_all_keys] length_all_keys)
  finally have "set ?L = set all_keys"
    using sub by (intro card_subset_eq) auto
  then have "k \<in> set ?L" using k by (simp add: set_all_keys)
  then have "count (mset ?L) k = 1"
    using dist by (metis distinct_count_atmost_1)
  then show ?thesis by (simp only: rows_with_key_count)
qed

lemma response_2015_length: "length (df_rows response_2015) = 8760"
  by (simp add: response_2015_def length_all_keys)

lemma response_2015_utc_keys:
  "map (\<lambda>(t, r). local_key (\<lambda>t. t) t) (df_rows response_2015) = all_keys"
  by (simp add: response_2015_def local_key_def at_time_def comp_def case_prod_unfold)

section \<open>A call on a well-formed table returns\<close>

lemma filter_concat_single:
  assumes "distinct xs" and "x0 \<in> set xs"
    and "\<And>x. x \<in> set xs \<Longrightarrow> x \<noteq> x0 \<Longrightarrow> filter P (f x) = []"
  shows "filter P (concat (map f xs)) = filter P (f x0)"
  using assms
proof (induction xs)
  case Nil
  then show ?case by simp
next
  case (Cons a xs)
  show ?case
  proof (cases "a = x0")
    case True
    then have "x0 \<notin> set xs" using Cons.prems(1) by simp
    then have "\<And>x. x \<in> set xs \<Longrightarrow> filter P (f x) = []"
      using Cons.prems(3) by auto
    then have "filter P (concat (map f xs)) = []"
      by (induction xs) auto
    with True show ?thesis by simp
  next
    case False
    then have "filter P (f a) = []" using Cons.prems(3) by simp
    moreover have "filter P (concat (map f xs)) = filter P (f x0)"
      using Cons False by auto
    ultimately show ?thesis by simp
  qed
qed

lemma filter_day_all_keys:
  assumes "1 \<le> m" "m \<le> 12" "1 \<le> d" "d \<le> days_in_month m"
  shows "filter (\<lambda>k. fst k = m \<and> fst (snd k) = d) all_keys = day_keys m d"
proof -
  let ?P = "\<lambda>k :: tmy_key. fst k = m \<and> fst (snd k) = d"
  have "filter ?P all_keys = filter ?P (month_keys m)"
    unfolding all_keys_def
  proof (rule filter_concat_single)
    show "distinct [1..<13::nat]" by simp
    show "m \<in> set [1..<13]" using assms by simp
    fix x assume "x \<noteq> m"
    then show "filter ?P (month_keys x) = []"
      by (auto simp: filter_empty_conv set_month_keys)
  qed
  also have "\<dots> = filter ?P (day_keys m d)"
    unfolding month_keys_def
  proof (rule filter_concat_single)
    show "distinct [1..<Suc (days_in_month m)]" by (rule distinct_upt)
    show "d \<in> set [1..<Suc (days_in_month m)]" using assms by (simp del: upt_Suc)
    fix x assume "x \<noteq> d"
    then show "filter ?P (day_keys m x) = []"
      by (auto simp: filter_empty_conv set_day_keys)
  qed
  also have "\<dots> = day_keys m d"
    by (auto simp: filter_id_conv set_day_keys)
  finally show ?thesis .
qed

lemma valid_date_lookup_day:
  assumes "valid_date month day"
  shows "1 \<le> month \<and> month \<le> 12 \<and> 1 \<le> lookup_day month day \<and>
    lookup_day month day \<le> days_in_month month"
  using assms by (auto simp: valid_date_def lookup_day_def days_in_month_def)

lemma well_formed_day_in_hour_order:
  assumes "well_formed_tmy tmy" and "valid_date month day"
  shows "day_in_hour_order tmy month (lookup_day month day)"
proof -
  have "map fst (filter (\<lambda>(k, r). fst k = month \<and> fst (snd k) = lookup_day month day) (df_rows tmy)) =
      filter (\<lambda>k. fst k = month \<and> fst (snd k) = lookup_day month day) (map fst (df_rows tmy))"
    by (rule filter_keys)
  also have "\<dots> = day_keys month (lookup_day month day)"
    using assms(1) valid_date_lookup_day [OF assms(2)]
    by (simp add: well_formed_tmy_def filter_day_all_keys)
  finally show ?thesis by (simp add: day_in_hour_order_def)
qed

lemma y_interp_well_formed:
  assumes wf: "well_formed_tmy tmy" and date: "valid_date month day"
  shows "\<exists>ys. y_interp tmy month (lookup_day month day) col = Inr ys \<and> length ys = 25 \<and>
    scalars ys \<noteq> None"
proof -
  let ?d = "lookup_day month day"
  have "length (filter (\<lambda>k. fst k = month \<and> fst (snd k) = ?d) (map fst (df_rows tmy))) = 24"
    using wf valid_date_lookup_day [OF date]
    by (simp add: well_formed_tmy_def filter_day_all_keys length_day_keys)
  then have "map_sum id length (loc_day tmy month ?d col) = Inr 24"
    by (simp add: loc_day_status)
  then obtain vs where vs: "loc_day tmy month ?d col = Inr vs" "length vs = 24"
    by (cases "loc_day tmy month ?d col") auto
  have "has_key tmy (1, 1, 0)"
    by (simp add: well_formed_keys [OF wf] valid_key_def days_in_month_def)
  then obtain k where k: "has_key tmy k" "closing_node tmy month ?d col = loc_hour tmy k col"
    using closing_node_chain [of tmy month ?d col] by (metis (full_types))
  from k(1) obtain r where "(k, r) \<in> set (df_rows tmy)"
    by (auto simp: has_key_def)
  from loc_hour_unique [OF well_formed_distinct [OF wf] this, of col] k(2)
  obtain c where c: "closing_node tmy month ?d col = Inr c" "scalars [c] \<noteq> None"
    by simp
  have "y_interp tmy month ?d col = Inr (map Scalar vs @ [c])"
    using vs c by (simp add: y_interp_def)
  moreover have "scalars (map Scalar vs @ [c]) \<noteq> None"
    using c(2) by (simp add: scalars_snoc)
  ultimately show ?thesis using vs(2) by simp
qed

lemma interp1d_returns:
  assumes "scalars ys \<noteq> None" and "length ys = 25" and "\<forall>t \<in> set idx. valid_time t"
  shows "\<exists>vals. interp1d spl x_interp ys knd (map hms_float_of idx) = Inr vals"
proof -
  have "hd x_interp = 0" and "last x_interp = 24" and "length x_interp = 25"
    by (simp_all add: x_interp_def upt25)
  moreover have "\<not> list_ex (\<lambda>v. v < 0 \<or> 24 < v) (map hms_float_of idx)"
    using assms(3) hms_float_range by (force simp: list_ex_iff)
  ultimately show ?thesis
    using assms(1,2) by (simp add: interp1d_status)
qed

lemma interp_columns_returns:
  assumes "\<And>col. col \<in> set cols \<Longrightarrow>
    \<exists>ys vals. y_interp tmy m d col = Inr ys \<and> interp1d spl x_interp ys knd hms = Inr vals"
  shows "\<exists>tbl'. interp_columns spl tmy knd m d hms cols tbl = Inr tbl'"
  using assms
proof (induction cols arbitrary: tbl)
  case Nil
  then show ?case by simp
next
  case (Cons col cols)
  from Cons.prems [of col] obtain ys vals where
    "y_interp tmy m d col = Inr ys" "interp1d spl x_interp ys knd hms = Inr vals" by auto
  moreover have "\<exists>tbl'. interp_columns spl tmy knd m d hms cols
      (tbl\<lparr>dt_data := (dt_data tbl)(col \<mapsto> vals)\<rparr>) = Inr tbl'"
    by (rule Cons.IH) (use Cons.prems in auto)
  ultimately show ?case by simp
qed

lemma day_group_returns:
  assumes "well_formed_tmy tmy" and "valid_date month day" and "\<forall>t \<in> set idx. valid_time t"
  shows "\<exists>tbl. day_group spl tmy knd month day idx = Inr tbl"
  unfolding day_group_def Let_def
proof (rule interp_columns_returns)
  fix col
  from y_interp_well_formed [OF assms(1,2), of col] obtain ys where
    ys: "y_interp tmy month (lookup_day month day) col = Inr ys" "length ys = 25"
      "scalars ys \<noteq> None" by blast
  from interp1d_returns [OF ys(3) ys(2) assms(3), of spl knd] ys(1)
  show "\<exists>ys vals. y_interp tmy month (lookup_day month day) col = Inr ys \<and>
      interp1d spl x_interp ys knd (map hms_float_of idx) = Inr vals"
    by blast
qed

lemma groups_loop_returns:
  assumes "\<And>year month day idx. ((year, month, day), idx) \<in> set items \<Longrightarrow>
    \<exists>tbl. day_group spl tmy knd month day idx = Inr tbl"
  shows "\<exists>cd'. groups_loop spl tmy knd items cd = Inr cd'"
  using assms
proof (induction spl tmy knd items cd rule: groups_loop.induct)
  case (1 spl tmy knd cd)
  then show ?case by simp
next
  case (2 spl tmy knd year month day idx items cd)
  from "2.prems" [of year month day idx] obtain tbl where
    t: "day_group spl tmy knd month day idx = Inr tbl" by auto
  have "\<exists>cd'. groups_loop spl tmy knd items (cd((year, month, day) \<mapsto> tbl)) = Inr cd'"
  proof (rule "2.IH" [OF t])
    fix y m d i
    assume "((y, m, d), i) \<in> set items"
    then show "\<exists>tbl. day_group spl tmy knd m d i = Inr tbl"
      using "2.prems" [of y m d i] by simp
  qed
  with t show ?case by simp
qed

lemma call_returns:
  assumes "well_formed_tmy tmy"
    and "\<forall>((year, month, day), idx) \<in> set time_data.
      valid_date month day \<and> (\<forall>t \<in> set idx. valid_time t)"
  shows "\<exists>climate_data. climate_data_from_pvgis_tmy_dataframe spl time_data tmy knd = Inr climate_data"
  unfolding climate_data_from_pvgis_tmy_dataframe_def
proof (rule groups_loop_returns)
  fix year month day idx
  assume "((year, month, day), idx) \<in> set time_data"
  with assms(2) have "valid_date month day" "\<forall>t \<in> set idx. valid_time t" by auto
  then show "\<exists>tbl. day_group spl tmy knd month day idx = Inr tbl"
    by (rule day_group_returns [OF assms(1)])
qed

lemma fetched_columns:
  "df_columns (get_pvgis_tmy_dataframe tz_convert response) = map rename_col (df_columns response)"
  by (simp add: get_pvgis_tmy_dataframe_def Let_def)

lemma renamed_pvgis_columns: "map rename_col pvgis_columns = documented_columns"
  by (simp add: pvgis_columns_def documented_columns_def rename_col_def new_cols_dict_def)

section \<open>The fetched table is well-formed\<close>

lemma sorted_concat_map:
  fixes f :: "'a \<Rightarrow> 'b :: linorder list"
  assumes "\<And>x. x \<in> set xs \<Longrightarrow> sorted (f x)"
    and "sorted_wrt (\<lambda>x y. \<forall>a \<in> set (f x). \<forall>b \<in> set (f y). a \<le> b) xs"
  shows "sorted (concat (map f xs))"
  using assms
proof (induction xs)
  case Nil
  then show ?case by simp
next
  case (Cons x xs)
  have "sorted (concat (map f xs))" using Cons by simp
  moreover have "sorted (f x)" using Cons.prems(1) by simp
  moreover have "\<forall>a \<in> set (f x). \<forall>b \<in> set (concat (map f xs)). a \<le> b"
    using Cons.prems(2) by auto
  ultimately show ?case by (simp add: sorted_append)
qed

lemma sorted_day_keys: "sorted (day_keys m d)"
  unfolding day_keys_def
  by (simp add: sorted_map sorted_wrt_iff_nth_less less_eq_prod_def del: upt_Suc)

lemma sorted_month_keys: "sorted (month_keys m)"
  unfolding month_keys_def
proof (rule sorted_concat_map)
  show "\<And>x. sorted (day_keys m x)" by (rule sorted_day_keys)
  show "sorted_wrt (\<lambda>x y. \<forall>a \<in> set (day_keys m x). \<forall>b \<in> set (day_keys m y). a \<le> b)
      [1..<Suc (days_in_month m)]"
    by (auto simp: sorted_wrt_iff_nth_less set_day_keys less_eq_prod_def simp del: upt_Suc)
qed

lemma sorted_all_keys: "sorted all_keys"
  unfolding all_keys_def
proof (rule sorted_concat_map)
  show "\<And>x. sorted (month_keys x)" by (rule sorted_month_keys)
  show "sorted_wrt (\<lambda>x y. \<forall>a \<in> set (month_keys x). \<forall>b \<in> set (month_keys y). a \<le> b)
      [1..<13]"
    by (auto simp: sorted_wrt_iff_nth_less set_month_keys less_eq_prod_def simp del: upt_Suc)
qed

lemma fetched_well_formed:
  assumes len: "length (df_rows response) = 8760"
    and dist: "distinct (map (\<lambda>(t, r). local_key tz_convert t) (df_rows response))"
    and valid: "\<forall>(t, r) \<in> set (df_rows response). valid_key (local_key tz_convert t)"
  shows "well_formed_tmy (get_pvgis_tmy_dataframe tz_convert response)"
proof -
  let ?L = "map (\<lambda>(t, r). local_key tz_convert t) (df_rows response)"
  let ?K = "map fst (df_rows (get_pvgis_tmy_dataframe tz_convert response))"
  have sub: "set ?L \<subseteq> set all_keys"
    using valid by (auto simp: set_all_keys)
  have "card (set ?L) = length ?L" using dist by (rule distinct_card)
  also have "\<dots> = card (set all_keys)"
    using len by (simp add: distinct_card [OF distinct_all_keys] length_all_keys)
  finally have cover: "set ?L = set all_keys"
    using sub by (intro card_subset_eq) auto
  have m: "mset ?K = mset ?L" by (rule tmy_keys_mset)
  then have "distinct ?K" using dist by (metis distinct_count_atmost_1 set_mset_mset)
  moreover have "set ?K = set all_keys" using m cover by (metis set_mset_mset)
  moreover have "sorted ?K" by (rule tmy_rows_sorted)
  ultimately have "?K = all_keys"
    using sorted_all_keys distinct_all_keys by (intro sorted_distinct_set_unique)
  then show ?thesis by (simp add: well_formed_tmy_def)
qed


section \<open>The claims\<close>

text \<open>
  C1 (amended). Every table of the result has one column more than the TMY table: the
  fractional-hour column and one column for each column of the TMY table, however many
  those are.
\<close>

theorem day_table_column_count:
  assumes "climate_data_from_pvgis_tmy_dataframe spl time_data tmy_data knd = Inr climate_data"
    and "climate_data k = Some tbl"
  shows "length (dt_columns tbl) = 1 + length (df_columns tmy_data)"
proof -
  from result_origin [OF assms] obtain month day idx where
    "day_group spl tmy_data knd month day idx = Inr tbl" by blast
  from day_group_shape [OF this] show ?thesis by simp
qed

theorem day_table_column_count_witness:
  "climate_data_from_pvgis_tmy_dataframe linear_spline [((2023, 6, 15), june_times)]
     june_tmy Linear = Inr [(2023, 6, 15) \<mapsto> june_day_table] \<and>
   [(2023 :: int, 6 :: nat, 15 :: nat) \<mapsto> june_day_table] (2023, 6, 15) =
     Some june_day_table \<and>
   length (dt_columns june_day_table) = 1 + length (df_columns june_tmy)"
proof -
  have look: "[(2023 :: int, 6 :: nat, 15 :: nat) \<mapsto> june_day_table] (2023, 6, 15) =
      Some june_day_table"
    by simp
  from day_table_column_count [OF june_run look] june_run look show ?thesis by blast
qed

text \<open>
  C1 as stated fails: on a TMY table with the nine columns that the docstring of
  \<^verbatim>\<open>get_pvgis_tmy_dataframe\<close> lists (the labels the fetcher gives the nine columns
  of pvlib's response), the table of a day has ten columns, not \<open>1 + 8\<close>.
\<close>

theorem day_table_column_count_counterexample:
  "(case climate_data_from_pvgis_tmy_dataframe linear_spline [((2023, 6, 15), june_times)]
          june_tmy Linear of
      Inl e \<Rightarrow> None
    | Inr climate_data \<Rightarrow>
        map_option (\<lambda>tbl. length (dt_columns tbl)) (climate_data (2023, 6, 15))) = Some 10"
  by (simp add: june_run june_day_table_def documented_columns_def)






text \<open>
  C4. A group keyed (year, 2, 29) and a group keyed (year, 2, 28) whose timestamps have
  the same times of day get tables with the same columns and the same values (or end in
  the same error), for every method and every TMY table: the lookup day of February 29
  is 28, and the lookup day of every other date is its own day.
\<close>

theorem leap_day_as_february_28:
  assumes "map hms_float_of idx29 = map hms_float_of idx28"
  shows "map_sum id table_values (day_group spl tmy_data knd 2 29 idx29) =
      map_sum id table_values (day_group spl tmy_data knd 2 28 idx28) \<and>
    map_sum id (\<lambda>climate_data. map_option table_values (climate_data (year, 2, 29)))
      (climate_data_from_pvgis_tmy_dataframe spl [((year, 2, 29), idx29)] tmy_data knd) =
    map_sum id (\<lambda>climate_data. map_option table_values (climate_data (year, 2, 28)))
      (climate_data_from_pvgis_tmy_dataframe spl [((year, 2, 28), idx28)] tmy_data knd) \<and>
    lookup_day 2 29 = 28 \<and>
    (\<forall>month day. (month, day) \<noteq> (2, 29) \<longrightarrow> lookup_day month day = day)"
proof -
  have g: "map_sum id table_values (day_group spl tmy_data knd 2 29 idx29) =
      map_sum id table_values (day_group spl tmy_data knd 2 28 idx28)"
    unfolding day_group_def Let_def using assms
    by (simp add: lookup_day_def interp_columns_index)
  have "map_sum id (\<lambda>climate_data. map_option table_values (climate_data (year, 2, 29)))
      (climate_data_from_pvgis_tmy_dataframe spl [((year, 2, 29), idx29)] tmy_data knd) =
    map_sum id (Some \<circ> table_values) (day_group spl tmy_data knd 2 29 idx29)"
    by (simp add: climate_data_from_pvgis_tmy_dataframe_def split: sum.splits)
  moreover have "map_sum id (\<lambda>climate_data. map_option table_values (climate_data (year, 2, 28)))
      (climate_data_from_pvgis_tmy_dataframe spl [((year, 2, 28), idx28)] tmy_data knd) =
    map_sum id (Some \<circ> table_values) (day_group spl tmy_data knd 2 28 idx28)"
    by (simp add: climate_data_from_pvgis_tmy_dataframe_def split: sum.splits)
  moreover have "map_sum id (Some \<circ> table_values) (day_group spl tmy_data knd 2 29 idx29) =
      map_sum id (Some \<circ> table_values) (day_group spl tmy_data knd 2 28 idx28)"
    using g by (cases "day_group spl tmy_data knd 2 29 idx29";
        cases "day_group spl tmy_data knd 2 28 idx28") simp_all
  ultimately show ?thesis using g by (simp add: lookup_day_def)
qed

theorem leap_day_as_february_28_witness:
  "map hms_float_of leap_times = map hms_float_of february_times \<and>
   day_group linear_spline february_tmy Linear 2 29 leap_times =
     Inr (february_day_table leap_times) \<and>
   map_sum id table_values (day_group linear_spline february_tmy Linear 2 29 leap_times) =
     map_sum id table_values (day_group linear_spline february_tmy Linear 2 28 february_times) \<and>
   map_sum id (\<lambda>climate_data. map_option table_values (climate_data (2024, 2, 29)))
     (climate_data_from_pvgis_tmy_dataframe linear_spline [((2024, 2, 29), leap_times)]
        february_tmy Linear) =
   map_sum id (\<lambda>climate_data. map_option table_values (climate_data (2024, 2, 28)))
     (climate_data_from_pvgis_tmy_dataframe linear_spline [((2024, 2, 28), february_times)]
        february_tmy Linear) \<and>
   lookup_day 2 29 = 28 \<and> ((2 :: nat, 28 :: nat) \<noteq> (2, 29)) \<and> lookup_day 2 28 = 28"
proof -
  have h: "map hms_float_of leap_times = map hms_float_of february_times"
    by (simp add: leap_times_def february_times_def hms_float_of_def at_time_def)
  from leap_day_as_february_28 [OF h, of linear_spline february_tmy Linear 2024] h leap_day_group
  show ?thesis by simp
qed

text \<open>
  C5. On a well-formed TMY table a group of December 31 takes its closing node from the
  row keyed (1, 1, 0): the table has neither (12, 32, 0) nor (13, 1, 0). The group never
  ends in the \<open>KeyError\<close> of the third lookup, and its table is built whenever the
  clock fields of its timestamps are in range.
\<close>

theorem december_31_closing_node:
  assumes "well_formed_tmy tmy_data"
  shows "\<not> has_key tmy_data (12, lookup_day 12 31 + 1, 0) \<and> \<not> has_key tmy_data (12 + 1, 1, 0) \<and>
    (\<exists>r. ((1, 1, 0), r) \<in> set (df_rows tmy_data) \<and>
       closing_node tmy_data 12 (lookup_day 12 31) col = Inr (Scalar (r col))) \<and>
    day_group spl tmy_data knd 12 31 idx \<noteq> Inl (KeyError [1, 1, 0]) \<and>
    ((\<forall>t \<in> set idx. valid_time t) \<longrightarrow> (\<exists>tbl. day_group spl tmy_data knd 12 31 idx = Inr tbl))"
proof -
  have keys: "has_key tmy_data k = valid_key k" for k
    by (rule well_formed_keys [OF assms])
  have a: "\<not> has_key tmy_data (12, lookup_day 12 31 + 1, 0)"
    by (simp add: keys valid_key_def lookup_day_def days_in_month_def)
  have b: "\<not> has_key tmy_data (12 + 1, 1, 0)"
    by (simp add: keys valid_key_def)
  have c: "has_key tmy_data (1, 1, 0)"
    by (simp add: keys valid_key_def days_in_month_def)
  then obtain r where r: "((1, 1, 0), r) \<in> set (df_rows tmy_data)"
    by (auto simp: has_key_def)
  have "closing_node tmy_data 12 (lookup_day 12 31) col = loc_hour tmy_data (1, 1, 0) col"
    using closing_node_chain [of tmy_data 12 "lookup_day 12 31" col] a b by simp
  also have "\<dots> = Inr (Scalar (r col))"
    by (rule loc_hour_unique [OF well_formed_distinct [OF assms] r])
  finally have d: "closing_node tmy_data 12 (lookup_day 12 31) col = Inr (Scalar (r col))" .
  have e: "day_group spl tmy_data knd 12 31 idx \<noteq> Inl (KeyError [1, 1, 0])"
  proof
    assume "day_group spl tmy_data knd 12 31 idx = Inl (KeyError [1, 1, 0])"
    from day_group_error [OF this] c show False by simp
  qed
  have "valid_date 12 31" by (simp add: valid_date_def days_in_month_def)
  then have f: "(\<forall>t \<in> set idx. valid_time t) \<longrightarrow>
      (\<exists>tbl. day_group spl tmy_data knd 12 31 idx = Inr tbl)"
    using day_group_returns [OF assms] by blast
  from a b r d e f show ?thesis by blast
qed

theorem december_31_closing_node_witness:
  "well_formed_tmy full_tmy \<and>
   \<not> has_key full_tmy (12, lookup_day 12 31 + 1, 0) \<and> \<not> has_key full_tmy (12 + 1, 1, 0) \<and>
   (\<exists>r. ((1, 1, 0), r) \<in> set (df_rows full_tmy) \<and>
      closing_node full_tmy 12 (lookup_day 12 31) ''T2m'' = Inr (Scalar (r ''T2m''))) \<and>
   day_group linear_spline full_tmy Linear 12 31 [at_time 2023 12 31 23 59 59] \<noteq>
     Inl (KeyError [1, 1, 0]) \<and>
   valid_time (at_time 2023 12 31 23 59 59) \<and>
   (\<exists>tbl. day_group linear_spline full_tmy Linear 12 31 [at_time 2023 12 31 23 59 59] = Inr tbl)"
proof -
  have v: "valid_time (at_time 2023 12 31 23 59 59)"
    by (simp add: valid_time_def at_time_def)
  from december_31_closing_node [OF well_formed_full_tmy, of "''T2m''" linear_spline Linear
      "[at_time 2023 12 31 23 59 59]"] well_formed_full_tmy v
  show ?thesis by simp
qed

text \<open>
  C6. When the table has none of the three keys of the closing node of a group, and at
  least one column, the group's table is not built: the body of the loop ends in a
  \<open>KeyError\<close> raised for the first column, and the call returns that error or one an
  earlier group raised, never a map of tables.
\<close>

theorem missing_closing_node_aborts:
  assumes "((year, month, day), idx) \<in> set time_data"
    and "df_columns tmy_data \<noteq> []"
    and "\<not> has_key tmy_data (month, lookup_day month day + 1, 0)"
    and "\<not> has_key tmy_data (month + 1, 1, 0)"
    and "\<not> has_key tmy_data (1, 1, 0)"
  shows "(day_group spl tmy_data knd month day idx = Inl (KeyError [1, 1, 0]) \<or>
      day_group spl tmy_data knd month day idx = Inl (KeyError [month, lookup_day month day])) \<and>
    (\<exists>e. climate_data_from_pvgis_tmy_dataframe spl time_data tmy_data knd = Inl e)"
proof -
  obtain col cols where cols: "df_columns tmy_data = col # cols"
    using assms(2) by (cases "df_columns tmy_data") auto
  have "closing_node tmy_data month (lookup_day month day) col = Inl (KeyError [1, 1, 0])"
    using closing_node_chain [of tmy_data month "lookup_day month day" col] assms(3-5)
      loc_hour_absent [OF assms(5), of col]
    by simp
  then have "y_interp tmy_data month (lookup_day month day) col = Inl (KeyError [1, 1, 0]) \<or>
      y_interp tmy_data month (lookup_day month day) col =
        Inl (KeyError [month, lookup_day month day])"
    by (auto simp: y_interp_def loc_day_def Let_def)
  then have g: "day_group spl tmy_data knd month day idx = Inl (KeyError [1, 1, 0]) \<or>
      day_group spl tmy_data knd month day idx = Inl (KeyError [month, lookup_day month day])"
    by (auto simp: day_group_def Let_def cols)
  then obtain e where "day_group spl tmy_data knd month day idx = Inl e" by blast
  from groups_loop_fail [OF assms(1) this]
  have "\<exists>e. climate_data_from_pvgis_tmy_dataframe spl time_data tmy_data knd = Inl e"
    by (simp add: climate_data_from_pvgis_tmy_dataframe_def)
  with g show ?thesis by blast
qed

theorem missing_closing_node_aborts_witness:
  "((2023, 6, 16), june_times) \<in> set [((2023, 6, 15), june_times), ((2023 :: int, 6 :: nat, 16 :: nat), june_times)] \<and>
   df_columns june_tmy \<noteq> [] \<and>
   \<not> has_key june_tmy (6, lookup_day 6 16 + 1, 0) \<and>
   \<not> has_key june_tmy (6 + 1, 1, 0) \<and>
   \<not> has_key june_tmy (1, 1, 0) \<and>
   (day_group linear_spline june_tmy Linear 6 16 june_times = Inl (KeyError [1, 1, 0]) \<or>
      day_group linear_spline june_tmy Linear 6 16 june_times = Inl (KeyError [6, lookup_day 6 16])) \<and>
   (\<exists>e. climate_data_from_pvgis_tmy_dataframe linear_spline
      [((2023, 6, 15), june_times), ((2023, 6, 16), june_times)] june_tmy Linear = Inl e)"
proof -
  have 1: "((2023, 6, 16), june_times) \<in>
      set [((2023, 6, 15), june_times), ((2023 :: int, 6 :: nat, 16 :: nat), june_times)]"
    by simp
  have 2: "df_columns june_tmy \<noteq> []"
    by (simp add: june_tmy_def documented_columns_def)
  have 3: "\<not> has_key june_tmy (6, lookup_day 6 16 + 1, 0)"
    by (simp add: has_key_def june_tmy_def lookup_day_def image_iff)
  have 4: "\<not> has_key june_tmy (6 + 1, 1, 0)"
    by (simp add: has_key_def june_tmy_def image_iff)
  have 5: "\<not> has_key june_tmy (1, 1, 0)"
    by (simp add: has_key_def june_tmy_def image_iff)
  from missing_closing_node_aborts [OF 1 2 3 4 5] 1 2 3 4 5 show ?thesis by blast
qed

text \<open>
  C7 (amended). For every response and every conversion of its labels to the zone, the
  table has as many rows as the response, its keys are in ascending order, and its rows
  are the rows of the response, each under the (month, day, hour) of its converted label
  and with its values unchanged (the columns renamed). When the response has 8760 rows
  whose converted labels give pairwise different (month, day, hour) of a year without a
  leap day, the table is well-formed: it has exactly one row for every such triple.
\<close>

theorem tmy_dataframe_rows:
  "length (df_rows (get_pvgis_tmy_dataframe tz_convert response)) = length (df_rows response) \<and>
   sorted (map fst (df_rows (get_pvgis_tmy_dataframe tz_convert response))) \<and>
   mset (df_rows (get_pvgis_tmy_dataframe tz_convert response)) =
     mset (map (\<lambda>(t, r). (local_key tz_convert t, r \<circ> old_col)) (df_rows response)) \<and>
   (length (df_rows response) = 8760 \<longrightarrow>
    distinct (map (\<lambda>(t, r). local_key tz_convert t) (df_rows response)) \<longrightarrow>
    (\<forall>(t, r) \<in> set (df_rows response). valid_key (local_key tz_convert t)) \<longrightarrow>
    well_formed_tmy (get_pvgis_tmy_dataframe tz_convert response) \<and>
    (\<forall>k. valid_key k \<longrightarrow> rows_with_key (get_pvgis_tmy_dataframe tz_convert response) k = 1))"
proof (intro conjI impI allI)
  have "size (mset (df_rows (get_pvgis_tmy_dataframe tz_convert response))) =
      size (mset (map (\<lambda>(t, r). (local_key tz_convert t, r \<circ> old_col)) (df_rows response)))"
    by (simp only: tmy_rows_mset)
  then show "length (df_rows (get_pvgis_tmy_dataframe tz_convert response)) =
      length (df_rows response)"
    by simp
  show "sorted (map fst (df_rows (get_pvgis_tmy_dataframe tz_convert response)))"
    by (rule tmy_rows_sorted)
  show "mset (df_rows (get_pvgis_tmy_dataframe tz_convert response)) =
     mset (map (\<lambda>(t, r). (local_key tz_convert t, r \<circ> old_col)) (df_rows response))"
    by (rule tmy_rows_mset)
next
  assume "length (df_rows response) = 8760"
    and "distinct (map (\<lambda>(t, r). local_key tz_convert t) (df_rows response))"
    and "\<forall>(t, r) \<in> set (df_rows response). valid_key (local_key tz_convert t)"
  then show "well_formed_tmy (get_pvgis_tmy_dataframe tz_convert response)"
    by (rule fetched_well_formed)
next
  fix k
  assume "length (df_rows response) = 8760"
    and "distinct (map (\<lambda>(t, r). local_key tz_convert t) (df_rows response))"
    and "\<forall>(t, r) \<in> set (df_rows response). valid_key (local_key tz_convert t)"
    and "valid_key k"
  then show "rows_with_key (get_pvgis_tmy_dataframe tz_convert response) k = 1"
    by (rule one_row_per_key)
qed

theorem tmy_dataframe_rows_witness:
  "length (df_rows response_2015) = 8760 \<and>
   distinct (map (\<lambda>(t, r). local_key (\<lambda>t. t) t) (df_rows response_2015)) \<and>
   list_all (\<lambda>(t, r). valid_key (local_key (\<lambda>t. t) t)) (df_rows response_2015) \<and>
   valid_key (12, 31, 23) \<and>
   well_formed_tmy (get_pvgis_tmy_dataframe (\<lambda>t. t) response_2015) \<and>
   rows_with_key (get_pvgis_tmy_dataframe (\<lambda>t. t) response_2015) (12, 31, 23) = 1 \<and>
   length (df_rows (get_pvgis_tmy_dataframe (\<lambda>t. t) response_2015)) = 8760 \<and>
   sorted (map fst (df_rows (get_pvgis_tmy_dataframe (\<lambda>t. t) response_2015)))"
proof -
  have d: "distinct (map (\<lambda>(t, r). local_key (\<lambda>t. t) t) (df_rows response_2015))"
    by (simp only: response_2015_utc_keys distinct_all_keys)
  have "set (map (\<lambda>(t, r). local_key (\<lambda>t. t) t) (df_rows response_2015)) = {k. valid_key k}"
    by (simp only: response_2015_utc_keys set_all_keys)
  then have v: "\<forall>(t, r) \<in> set (df_rows response_2015). valid_key (local_key (\<lambda>t. t) t)"
    by auto
  then have v': "list_all (\<lambda>(t, r). valid_key (local_key (\<lambda>t. t) t)) (df_rows response_2015)"
    by (simp add: list_all_iff)
  have k: "valid_key (12, 31, 23)"
    by (simp add: valid_key_def days_in_month_def)
  from tmy_dataframe_rows [of "\<lambda>t. t" response_2015] response_2015_length d v v' k
  show ?thesis by simp
qed

text \<open>
  C7 as stated fails for a zone with daylight saving time. The response holds the 8760
  hours of 2015 in UTC and the zone is \<^verbatim>\<open>Europe/Berlin\<close>: 00:00 and 01:00 UTC of
  October 25 are both 02:00 there, so the key (10, 25, 2) has two rows.
\<close>

theorem tmy_dataframe_rows_counterexample:
  "length (df_rows response_2015) = 8760 \<and>
   valid_key (10, 25, 2) \<and>
   2 \<le> rows_with_key (get_pvgis_tmy_dataframe tz_convert_berlin_2015 response_2015) (10, 25, 2)"
proof -
  let ?a = "(at_time 2015 10 25 0 0 0, \<lambda>c :: string. 0 :: real)"
  let ?b = "(at_time 2015 10 25 1 0 0, \<lambda>c :: string. 0 :: real)"
  have "(10, 25, 0) \<in> set all_keys" and "(10, 25, 1) \<in> set all_keys"
    by (simp_all add: set_all_keys valid_key_def days_in_month_def)
  then have a: "?a \<in> set (df_rows response_2015)" and b: "?b \<in> set (df_rows response_2015)"
    by (force simp: response_2015_def)+
  have ne: "?a \<noteq> ?b" by (simp add: at_time_def)
  have "2 \<le> length (filter (\<lambda>(t, r). local_key tz_convert_berlin_2015 t = (10, 25, 2))
      (df_rows response_2015))"
    by (rule two_in_filter [OF a b ne])
      (simp_all only: prod.case berlin_fall_back_0 berlin_fall_back_1)
  then have "2 \<le> rows_with_key (get_pvgis_tmy_dataframe tz_convert_berlin_2015 response_2015)
      (10, 25, 2)"
    by (simp only: rows_with_key_response)
  moreover have "valid_key (10, 25, 2)"
    by (simp add: valid_key_def days_in_month_def)
  ultimately show ?thesis using response_2015_length by simp
qed

text \<open>
  C8. The call returns on a well-formed TMY table when every group is keyed by a date of
  the calendar (or February 29) and holds timestamps with clock fields in range. When it
  returns, the result has exactly the keys of \<open>time_data\<close>; the table of a group has the
  group's timestamps as its index, every column of it is assigned and has one value for
  each timestamp, and its column \<^verbatim>\<open>hms_float\<close> holds hour + minute/60 + second/3600 of
  each timestamp, a number in [0, 24) for clock fields in range. Here \<open>time_data\<close> lists
  the items of a dictionary, and no column of the TMY table is called \<^verbatim>\<open>hms_float\<close>.
\<close>

theorem one_table_per_group:
  assumes "distinct (map fst time_data)"
    and "''hms_float'' \<notin> set (df_columns tmy_data)"
  shows "(well_formed_tmy tmy_data \<longrightarrow>
      (\<forall>((year, month, day), idx) \<in> set time_data.
         valid_date month day \<and> (\<forall>t \<in> set idx. valid_time t)) \<longrightarrow>
      (\<exists>climate_data.
         climate_data_from_pvgis_tmy_dataframe spl time_data tmy_data knd = Inr climate_data)) \<and>
    (\<forall>climate_data.
       climate_data_from_pvgis_tmy_dataframe spl time_data tmy_data knd = Inr climate_data \<longrightarrow>
       dom climate_data = fst ` set time_data \<and>
       (\<forall>(key, DatetimeIndex_obj) \<in> set time_data.
          \<exists>tbl. climate_data key = Some tbl \<and>
            dt_index tbl = DatetimeIndex_obj \<and>
            dom (dt_data tbl) = set (dt_columns tbl) \<and>
            (\<forall>c vals. dt_data tbl c = Some vals \<longrightarrow> length vals = length DatetimeIndex_obj) \<and>
            dt_data tbl ''hms_float'' =
              Some (map (\<lambda>t. real (t_hour t) + real (t_minute t) / 60 + real (t_second t) / 3600)
                      DatetimeIndex_obj))) \<and>
    (\<forall>t. valid_time t \<longrightarrow>
       0 \<le> real (t_hour t) + real (t_minute t) / 60 + real (t_second t) / 3600 \<and>
       real (t_hour t) + real (t_minute t) / 60 + real (t_second t) / 3600 < 24)"
proof (intro conjI impI allI)
  assume "well_formed_tmy tmy_data"
    and "\<forall>((year, month, day), idx) \<in> set time_data.
      valid_date month day \<and> (\<forall>t \<in> set idx. valid_time t)"
  then show "\<exists>climate_data.
      climate_data_from_pvgis_tmy_dataframe spl time_data tmy_data knd = Inr climate_data"
    by (rule call_returns)
next
  fix climate_data
  assume run: "climate_data_from_pvgis_tmy_dataframe spl time_data tmy_data knd = Inr climate_data"
  then have loop: "groups_loop spl tmy_data knd time_data Map.empty = Inr climate_data"
    by (simp add: climate_data_from_pvgis_tmy_dataframe_def)
  from groups_loop_dom [OF loop] show "dom climate_data = fst ` set time_data" by simp
  show "\<forall>(key, DatetimeIndex_obj) \<in> set time_data.
       \<exists>tbl. climate_data key = Some tbl \<and>
         dt_index tbl = DatetimeIndex_obj \<and>
         dom (dt_data tbl) = set (dt_columns tbl) \<and>
         (\<forall>c vals. dt_data tbl c = Some vals \<longrightarrow> length vals = length DatetimeIndex_obj) \<and>
         dt_data tbl ''hms_float'' =
           Some (map (\<lambda>t. real (t_hour t) + real (t_minute t) / 60 + real (t_second t) / 3600)
                   DatetimeIndex_obj)"
  proof (clarify)
    fix year month day idx
    assume "((year, month, day), idx) \<in> set time_data"
    from groups_loop_item [OF loop assms(1) this] obtain tbl where
      g: "day_group spl tmy_data knd month day idx = Inr tbl" and
      l: "climate_data (year, month, day) = Some tbl" by blast
    have "map hms_float_of idx =
        map (\<lambda>t. real (t_hour t) + real (t_minute t) / 60 + real (t_second t) / 3600) idx"
      by (simp add: hms_float_of_def)
    with day_group_table [OF g] assms(2) l
    show "\<exists>tbl. climate_data (year, month, day) = Some tbl \<and>
         dt_index tbl = idx \<and>
         dom (dt_data tbl) = set (dt_columns tbl) \<and>
         (\<forall>c vals. dt_data tbl c = Some vals \<longrightarrow> length vals = length idx) \<and>
         dt_data tbl ''hms_float'' =
           Some (map (\<lambda>t. real (t_hour t) + real (t_minute t) / 60 + real (t_second t) / 3600)
                   idx)"
      by (metis (no_types, lifting))
  qed
next
  fix t
  assume "valid_time t"
  from hms_float_range [OF this]
  show "0 \<le> real (t_hour t) + real (t_minute t) / 60 + real (t_second t) / 3600"
    and "real (t_hour t) + real (t_minute t) / 60 + real (t_second t) / 3600 < 24"
    by (simp_all add: hms_float_of_def)
qed

theorem one_table_per_group_witness:
  "distinct (map fst [((2023 :: int, 12 :: nat, 31 :: nat), [at_time 2023 12 31 23 59 59])]) \<and>
   ''hms_float'' \<notin> set (df_columns full_tmy) \<and>
   well_formed_tmy full_tmy \<and>
   valid_date 12 31 \<and>
   valid_time (at_time 2023 12 31 23 59 59) \<and>
   (\<exists>climate_data tbl.
      climate_data_from_pvgis_tmy_dataframe linear_spline
        [((2023, 12, 31), [at_time 2023 12 31 23 59 59])] full_tmy Linear = Inr climate_data \<and>
      dom climate_data = {(2023, 12, 31)} \<and>
      climate_data (2023, 12, 31) = Some tbl \<and>
      dt_index tbl = [at_time 2023 12 31 23 59 59] \<and>
      dom (dt_data tbl) = set (dt_columns tbl) \<and>
      dt_data tbl ''hms_float'' = Some [86399 / 3600]) \<and>
   (0 :: real) \<le> 86399 / 3600 \<and> (86399 :: real) / 3600 < 24"
proof -
  let ?t = "at_time 2023 12 31 23 59 59"
  let ?td = "[((2023 :: int, 12 :: nat, 31 :: nat), [?t])]"
  let ?run = "climate_data_from_pvgis_tmy_dataframe linear_spline ?td full_tmy Linear"
  let ?f = "\<lambda>t. real (t_hour t) + real (t_minute t) / 60 + real (t_second t) / 3600"
  have d: "distinct (map fst ?td)" by simp
  have h: "''hms_float'' \<notin> set (df_columns full_tmy)"
    by (simp add: full_tmy_def documented_columns_def)
  have date: "valid_date 12 31" by (simp add: valid_date_def days_in_month_def)
  have v: "valid_time ?t"
    by (simp add: valid_time_def at_time_def)
  have f: "?f ?t = 86399 / 3600" by (simp add: at_time_def)
  have grp: "\<forall>((year, month, day), idx) \<in> set ?td.
      valid_date month day \<and> (\<forall>t \<in> set idx. valid_time t)"
    using date v by simp
  note inst = one_table_per_group [OF d h, of linear_spline Linear]
  from inst have "well_formed_tmy full_tmy \<longrightarrow>
      (\<forall>((year, month, day), idx) \<in> set ?td.
         valid_date month day \<and> (\<forall>t \<in> set idx. valid_time t)) \<longrightarrow>
      (\<exists>climate_data. ?run = Inr climate_data)"
    by (rule conjunct1)
  with well_formed_full_tmy grp obtain climate_data where run: "?run = Inr climate_data"
    by blast
  from inst have "\<forall>climate_data. ?run = Inr climate_data \<longrightarrow>
       dom climate_data = fst ` set ?td \<and>
       (\<forall>(key, DatetimeIndex_obj) \<in> set ?td.
          \<exists>tbl. climate_data key = Some tbl \<and>
            dt_index tbl = DatetimeIndex_obj \<and>
            dom (dt_data tbl) = set (dt_columns tbl) \<and>
            (\<forall>c vals. dt_data tbl c = Some vals \<longrightarrow> length vals = length DatetimeIndex_obj) \<and>
            dt_data tbl ''hms_float'' = Some (map ?f DatetimeIndex_obj))"
    by (rule conjunct1 [OF conjunct2])
  then have "?run = Inr climate_data \<longrightarrow>
       dom climate_data = fst ` set ?td \<and>
       (\<forall>(key, DatetimeIndex_obj) \<in> set ?td.
          \<exists>tbl. climate_data key = Some tbl \<and>
            dt_index tbl = DatetimeIndex_obj \<and>
            dom (dt_data tbl) = set (dt_columns tbl) \<and>
            (\<forall>c vals. dt_data tbl c = Some vals \<longrightarrow> length vals = length DatetimeIndex_obj) \<and>
            dt_data tbl ''hms_float'' = Some (map ?f DatetimeIndex_obj))"
    by (rule spec)
  then have p: "dom climate_data = fst ` set ?td \<and>
       (\<forall>(key, DatetimeIndex_obj) \<in> set ?td.
          \<exists>tbl. climate_data key = Some tbl \<and>
            dt_index tbl = DatetimeIndex_obj \<and>
            dom (dt_data tbl) = set (dt_columns tbl) \<and>
            (\<forall>c vals. dt_data tbl c = Some vals \<longrightarrow> length vals = length DatetimeIndex_obj) \<and>
            dt_data tbl ''hms_float'' = Some (map ?f DatetimeIndex_obj))"
    using run by (rule mp)
  from p have dom: "dom climate_data = {(2023, 12, 31)}" by simp
  from p obtain tbl where tbl: "climate_data (2023, 12, 31) = Some tbl"
    "dt_index tbl = [?t]" "dom (dt_data tbl) = set (dt_columns tbl)"
    "dt_data tbl ''hms_float'' = Some (map ?f [?t])"
    by auto
  from tbl(4) f have hv: "dt_data tbl ''hms_float'' = Some [86399 / 3600]" by simp
  from inst have "\<forall>t. valid_time t \<longrightarrow> 0 \<le> ?f t \<and> ?f t < 24"
    by (rule conjunct2 [OF conjunct2])
  with v have "0 \<le> ?f ?t" "?f ?t < 24" by blast+
  with f have r: "(0 :: real) \<le> 86399 / 3600" "(86399 :: real) / 3600 < 24" by simp_all
  from run dom tbl(1-3) hv have "\<exists>climate_data tbl. ?run = Inr climate_data \<and>
      dom climate_data = {(2023, 12, 31)} \<and>
      climate_data (2023, 12, 31) = Some tbl \<and>
      dt_index tbl = [?t] \<and>
      dom (dt_data tbl) = set (dt_columns tbl) \<and>
      dt_data tbl ''hms_float'' = Some [86399 / 3600]"
    by blast
  with d h well_formed_full_tmy date v r show ?thesis by blast
qed

text \<open>
  C9. Two TMY tables with the same column labels that agree on one column (its index and
  its values) give that column the same nodes and the same interpolated values in every
  group, and the call ends in the same error on both when it ends in one: the values of
  the other columns have no part in it.
\<close>

theorem column_independence:
  assumes "df_columns tmy1 = df_columns tmy2"
    and "column_values tmy1 col = column_values tmy2 col"
  shows "y_interp tmy1 month day' col = y_interp tmy2 month day' col \<and>
    map_sum id (\<lambda>climate_data key. map_option (\<lambda>tbl. dt_data tbl col) (climate_data key))
      (climate_data_from_pvgis_tmy_dataframe spl time_data tmy1 knd) =
    map_sum id (\<lambda>climate_data key. map_option (\<lambda>tbl. dt_data tbl col) (climate_data key))
      (climate_data_from_pvgis_tmy_dataframe spl time_data tmy2 knd)"
  unfolding climate_data_from_pvgis_tmy_dataframe_def
  using y_interp_column [OF assms(2)] groups_loop_column [OF assms, of Map.empty Map.empty]
  by simp

theorem column_independence_witness:
  "df_columns june_tmy = df_columns june_tmy_other \<and>
   column_values june_tmy ''T2m'' = column_values june_tmy_other ''T2m'' \<and>
   column_values june_tmy ''RH'' \<noteq> column_values june_tmy_other ''RH'' \<and>
   y_interp june_tmy 6 15 ''T2m'' = y_interp june_tmy_other 6 15 ''T2m'' \<and>
   map_sum id (\<lambda>climate_data key. map_option (\<lambda>tbl. dt_data tbl ''T2m'') (climate_data key))
     (climate_data_from_pvgis_tmy_dataframe linear_spline [((2023, 6, 15), june_times)]
        june_tmy Linear) =
   map_sum id (\<lambda>climate_data key. map_option (\<lambda>tbl. dt_data tbl ''T2m'') (climate_data key))
     (climate_data_from_pvgis_tmy_dataframe linear_spline [((2023, 6, 15), june_times)]
        june_tmy_other Linear)"
proof -
  have c: "df_columns june_tmy = df_columns june_tmy_other"
    by (simp add: june_tmy_def june_tmy_other_def)
  have o: "column_values june_tmy ''RH'' \<noteq> column_values june_tmy_other ''RH''"
    by (simp add: column_values_def june_tmy_def june_tmy_other_def)
  from column_independence [OF c june_other_column] c june_other_column o
  show ?thesis by blast
qed

text \<open>
  C10. When the TMY table has a row keyed (1, 1, 0), the closing node of every month, day
  and column is found, and the call never ends in the \<open>KeyError\<close> of the third lookup.
\<close>

theorem closing_node_resolves:
  assumes "has_key tmy_data (1, 1, 0)"
  shows "(\<forall>month day' col. \<exists>c. closing_node tmy_data month day' col = Inr c) \<and>
    climate_data_from_pvgis_tmy_dataframe spl time_data tmy_data knd \<noteq> Inl (KeyError [1, 1, 0])"
proof
  show "\<forall>month day' col. \<exists>c. closing_node tmy_data month day' col = Inr c"
  proof (intro allI)
    fix month day' col
    show "\<exists>c. closing_node tmy_data month day' col = Inr c"
    proof (cases "closing_node tmy_data month day' col")
      case (Inl e)
      from closing_node_error [OF this] assms show ?thesis by simp
    next
      case (Inr c)
      then show ?thesis by simp
    qed
  qed
  show "climate_data_from_pvgis_tmy_dataframe spl time_data tmy_data knd \<noteq> Inl (KeyError [1, 1, 0])"
  proof
    assume "climate_data_from_pvgis_tmy_dataframe spl time_data tmy_data knd = Inl (KeyError [1, 1, 0])"
    from result_error [OF this] assms show False by simp
  qed
qed

theorem closing_node_resolves_witness:
  "has_key full_tmy (1, 1, 0) \<and>
   (\<forall>month day' col. \<exists>c. closing_node full_tmy month day' col = Inr c) \<and>
   climate_data_from_pvgis_tmy_dataframe linear_spline
     [((2023, 12, 31), [at_time 2023 12 31 23 59 59])] full_tmy Linear \<noteq> Inl (KeyError [1, 1, 0])"
  using closing_node_resolves [OF full_tmy_january] full_tmy_january by blast

end
